theory Spec2Isabelle
  imports Main "HOL-Library.Sublist"
begin

section \<open>Strings of the host language\<close>

text \<open>
  The program is JavaScript (\<^verbatim>\<open>cronmanager/app.js\<close>). Its strings are modelled as
  \<^typ>\<open>string\<close>: a list of code units, here the code units \<open>0x00\<close> to \<open>0xFF\<close>.
  Within that range the white space of \<^verbatim>\<open>String.prototype.trim\<close> and of the regular
  expression class \<^verbatim>\<open>\s\<close> is TAB, LF, VT, FF, CR, SPACE and NO-BREAK SPACE.
\<close>

abbreviation LF :: char where "LF \<equiv> CHR 0x0A"
abbreviation CR :: char where "CR \<equiv> CHR 0x0D"

definition isSpace :: "char \<Rightarrow> bool" where
  "isSpace c = (c \<in> set [CHR 0x09, CHR 0x0A, CHR 0x0B, CHR 0x0C, CHR 0x0D, CHR 0x20, CHR 0xA0])"

definition trimStart :: "string \<Rightarrow> string" where
  "trimStart s = dropWhile isSpace s"

definition trimEnd :: "string \<Rightarrow> string" where
  "trimEnd s = rev (dropWhile isSpace (rev s))"

definition trim :: "string \<Rightarrow> string" where
  "trim s = trimStart (trimEnd s)"

text \<open>
  \<^verbatim>\<open>s.split(/\s+/)\<close>: every maximal run of white space is one separator; a separator at
  the start or at the end of the string leaves an empty first or last field, and the empty
  string yields the single empty field.
\<close>

function splitWs :: "string \<Rightarrow> string list" where
  "splitWs [] = [[]]"
| "splitWs (c # cs) =
     (if isSpace c then [] # splitWs (dropWhile isSpace cs)
      else (let r = splitWs cs in (c # hd r) # tl r))"
  by pat_completeness auto
termination
  by (relation "measure length") (auto simp: less_Suc_eq_le length_dropWhile_le)

text \<open>
  \<^verbatim>\<open>s.split(/\r?\n/)\<close>: scanning from the left, a line feed, or a carriage return
  directly followed by a line feed, ends the current line.
\<close>

fun splitLines :: "string \<Rightarrow> string list" where
  "splitLines [] = [[]]"
| "splitLines (c # cs) =
     (if c = LF then [] # splitLines cs
      else if c = CR \<and> cs \<noteq> [] \<and> hd cs = LF then [] # splitLines (tl cs)
      else (let r = splitLines cs in (c # hd r) # tl r))"

text \<open>\<^verbatim>\<open>xs.join("\n")\<close>.\<close>

fun joinLF :: "string list \<Rightarrow> string" where
  "joinLF [] = []"
| "joinLF [x] = x"
| "joinLF (x # y # ys) = x @ LF # joinLF (y # ys)"

text \<open>\<^verbatim>\<open>String.prototype.toLowerCase\<close> on the code units \<open>0x00\<close> to \<open>0xFF\<close>: the letters
  \<open>A\<close> to \<open>Z\<close> and \<open>0xC0\<close> to \<open>0xDE\<close> (the multiplication sign \<open>0xD7\<close> apart) move up by
  \<open>0x20\<close>.\<close>

definition toLowerChar :: "char \<Rightarrow> char" where
  "toLowerChar c =
     (let n = (of_char c :: nat) in
      if (65 \<le> n \<and> n \<le> 90) \<or> (192 \<le> n \<and> n \<le> 222 \<and> n \<noteq> 215) then char_of (n + 32) else c)"

definition toLowerCase :: "string \<Rightarrow> string" where
  "toLowerCase s = map toLowerChar s"

text \<open>\<^verbatim>\<open>s.indexOf(pat) !== -1\<close>: \<open>pat\<close> occurs in \<open>s\<close> as a contiguous run.\<close>

definition contains :: "string \<Rightarrow> string \<Rightarrow> bool" where
  "contains s pat = sublist pat s"

text \<open>
  A regular expression with the flag \<^verbatim>\<open>i\<close> and an ASCII pattern compares ASCII letters
  without regard to case and every other code unit exactly (a code unit above \<open>0x7F\<close>
  never canonicalises to an ASCII one).
\<close>

definition asciiFold :: "char \<Rightarrow> char" where
  "asciiFold c =
     (let n = (of_char c :: nat) in if 65 \<le> n \<and> n \<le> 90 then char_of (n + 32) else c)"

definition searchIgnoreCase :: "string \<Rightarrow> string \<Rightarrow> bool" where
  "searchIgnoreCase pat s = sublist (map asciiFold pat) (map asciiFold s)"

text \<open>JavaScript truthiness of a value that is a string, \<^verbatim>\<open>null\<close> or \<^verbatim>\<open>undefined\<close>.\<close>

fun truthy :: "string option \<Rightarrow> bool" where
  "truthy None = False"
| "truthy (Some s) = (s \<noteq> [])"

section \<open>Schedule validation\<close>

text \<open>
  \<^verbatim>\<open>
  function validateCron(expr){
    const parts = expr.trim().split(/\s+/);
    if (parts.length < 5 || parts.length > 7) return false;
    return parts.every(Boolean);
  }
  \<close>
\<close>

definition validateCron :: "string \<Rightarrow> bool" where
  "validateCron expr =
     (let parts = splitWs (trim expr) in
      if length parts < 5 \<or> length parts > 7 then False
      else list_all (\<lambda>p. p \<noteq> []) parts)"

section \<open>Data model\<close>

datatype lineType = Entry | Comment | Blank

record line =
  type :: lineType
  lineText :: string
  lineIdx :: nat

text \<open>
  What \<^verbatim>\<open>cockpit.spawn\<close> resolves with (the shapes \<^verbatim>\<open>loadCrontab\<close> distinguishes: a
  string, an object that may carry \<^verbatim>\<open>stdout\<close>, an array of strings) and what it rejects
  with: an object that may carry \<^verbatim>\<open>problem\<close>, \<^verbatim>\<open>message\<close>, \<^verbatim>\<open>stderr\<close> and
  \<^verbatim>\<open>stdout\<close>, together with what its \<^verbatim>\<open>toString()\<close> returns.
\<close>

datatype spawn_value = VString string | VObject "string option" | VArray "string list"

record err =
  problem :: "string option"
  message :: "string option"
  stderr :: "string option"
  stdout :: "string option"
  toString :: string

datatype reply = Resolved spawn_value | Rejected err

text \<open>A command sent to the host: the argument vector, and whether \<^verbatim>\<open>{superuser: "require"}\<close>
  was asked for. The host is a black box that answers the last command of the history of
  commands it was sent.\<close>

type_synonym cmd = "string list \<times> bool"
type_synonym host = "cmd list \<Rightarrow> reply"

text \<open>The texts shown to the operator (status line, error box, log), one constructor for each
  message of the source; the argument is the user name or the diagnostic put in it. The
  diagnostic is \<^verbatim>\<open>err.message || JSON.stringify(err)\<close>: the message when there is one, the
  rendering of the whole failure otherwise.\<close>

datatype detail = Message string | Stringified err

datatype status_msg =
    StatusInitial
  | StatusLoading string | StatusLoaded string | StatusPermissionDenied | StatusNoCrontab string
  | StatusErrorLoading
  | StatusInstalling string | StatusInstalled string | StatusInstallFailed

datatype error_msg =
    ErrAdminRead string | ErrFailedRead detail
  | ErrAdminWrite string | ErrFailedInstall detail
  | ErrInvalidCron

datatype log_msg =
    LogLoaded string | LogDeniedLoad string | LogNoCrontab string | LogErrorLoading detail
  | LogInstalled string | LogDeniedInstall string | LogInstallFailed detail

text \<open>
  The module state of the source (\<^verbatim>\<open>rawCrontab\<close>, \<^verbatim>\<open>parsedLines\<close>, \<^verbatim>\<open>currentUser\<close>),
  the user selector (\<open>None\<close> when the element is absent, otherwise its value), what the
  page shows (\<open>errorContainer\<close> is \<open>None\<close> when hidden), and the history of the commands
  sent to the host. Rendering of the list is not modelled.
\<close>

record session =
  rawCrontab :: string
  parsedLines :: "line list"
  currentUser :: "string option"
  userSelect :: "string option"
  errorContainer :: "error_msg option"
  statusEl :: status_msg
  logged :: "log_msg list"
  issued :: "cmd list"

section \<open>Helpers of the source\<close>

definition log :: "log_msg \<Rightarrow> session \<Rightarrow> session" where
  "log msg st = st\<lparr>logged := logged st @ [msg]\<rparr>"

definition setError :: "error_msg \<Rightarrow> session \<Rightarrow> session" where
  "setError msg st = st\<lparr>errorContainer := Some msg\<rparr>"

definition clearError :: "session \<Rightarrow> session" where
  "clearError st = st\<lparr>errorContainer := None\<rparr>"

definition showStatus :: "status_msg \<Rightarrow> session \<Rightarrow> session" where
  "showStatus msg st = st\<lparr>statusEl := msg\<rparr>"

text \<open>
  \<^verbatim>\<open>
  function getSelectedUserValue(){
    if (!userSelect) return currentUser || null;
    return userSelect.value || currentUser || null;
  }
  function getUserForCrontabFlag(){
    const value = getSelectedUserValue();
    return value || null;
  }
  function isDifferentUser(){
    const target = getUserForCrontabFlag();
    if (!target) return false;
    if (!currentUser) return true;
    return target !== currentUser;
  }
  function userDisplayName(){
    const target = getUserForCrontabFlag();
    if (!target) return currentUser ? currentUser : 'current user';
    return target;
  }
  \<close>
\<close>

definition getSelectedUserValue :: "session \<Rightarrow> string option" where
  "getSelectedUserValue st =
     (case userSelect st of
        None \<Rightarrow> (if truthy (currentUser st) then currentUser st else None)
      | Some v \<Rightarrow>
          if v \<noteq> [] then Some v
          else if truthy (currentUser st) then currentUser st else None)"

definition getUserForCrontabFlag :: "session \<Rightarrow> string option" where
  "getUserForCrontabFlag st =
     (let v = getSelectedUserValue st in if truthy v then v else None)"

definition isDifferentUser :: "session \<Rightarrow> bool" where
  "isDifferentUser st =
     (let target = getUserForCrontabFlag st in
      if \<not> truthy target then False
      else if \<not> truthy (currentUser st) then True
      else target \<noteq> currentUser st)"

definition userDisplayName :: "session \<Rightarrow> string" where
  "userDisplayName st =
     (case getUserForCrontabFlag st of
        Some t \<Rightarrow> if t \<noteq> [] then t
                 else if truthy (currentUser st) then the (currentUser st) else ''current user''
      | None \<Rightarrow> if truthy (currentUser st) then the (currentUser st) else ''current user'')"

text \<open>
  \<^verbatim>\<open>
  function spawnCommand(args, requireSuperuser){
    const options = requireSuperuser ? { superuser: "require" } : {};
    return cockpit.spawn(args, options);
  }
  \<close>
  \<open>sendCommand\<close> is the call: the command joins the history of the commands sent.
  \<open>spawnCommand\<close> is the call awaited: the host answers the command.
\<close>

definition sendCommand :: "string list \<Rightarrow> bool \<Rightarrow> session \<Rightarrow> session" where
  "sendCommand args requireSuperuser st = st\<lparr>issued := issued st @ [(args, requireSuperuser)]\<rparr>"

definition spawnCommand :: "host \<Rightarrow> string list \<Rightarrow> bool \<Rightarrow> session \<Rightarrow> reply \<times> session" where
  "spawnCommand h args requireSuperuser st =
     (let st' = sendCommand args requireSuperuser st in (h (issued st'), st'))"

text \<open>
  \<^verbatim>\<open>
  function isAccessDenied(err){
    if (!err) return false;
    if (err.problem === 'access-denied') return true;
    const msg = err.message || err.toString();
    return /permission denied|access denied|authorization|not authorized/i.test(msg);
  }
  \<close>
\<close>

definition isAccessDenied :: "err \<Rightarrow> bool" where
  "isAccessDenied e =
     (if problem e = Some ''access-denied'' then True
      else (let msg = (if truthy (message e) then the (message e) else toString e) in
            searchIgnoreCase ''permission denied'' msg \<or> searchIgnoreCase ''access denied'' msg \<or>
            searchIgnoreCase ''authorization'' msg \<or> searchIgnoreCase ''not authorized'' msg))"

text \<open>
  \<^verbatim>\<open>
  function errorText(err){
    if (!err) return '';
    const parts = [];
    if (err.stderr) parts.push(err.stderr);
    if (err.stdout) parts.push(err.stdout);
    if (err.message) parts.push(err.message);
    if (err.problem) parts.push(err.problem);
    ...
    const combined = normalized.join('\n');
    if (typeof combined === 'string') return combined;
    ...
  }
  \<close>
\<close>

definition errorText :: "err \<Rightarrow> string" where
  "errorText e =
     joinLF (map the (filter truthy [stderr e, stdout e, message e, problem e]))"

text \<open>\<^verbatim>\<open>err.message || JSON.stringify(err)\<close>, the diagnostic shown on a failure.\<close>

definition errDetail :: "err \<Rightarrow> detail" where
  "errDetail e = (if truthy (message e) then Message (the (message e)) else Stringified e)"

section \<open>Parsing\<close>

text \<open>
  \<^verbatim>\<open>
  function parseCrontab(raw){
    const lines = raw.split(/\r?\n/);
    const out = [];
    lines.forEach((l, idx) => {
      if (l.trim() === "") out.push({type:'blank', text:l, lineIdx: idx});
      else if (/^\s*#/.test(l)) out.push({type:'comment', text:l, lineIdx: idx});
      else out.push({type:'entry', text:l, lineIdx: idx});
    });
    return out;
  }
  \<close>
\<close>

definition startsWithHash :: "string \<Rightarrow> bool" where
  "startsWithHash l = (case dropWhile isSpace l of [] \<Rightarrow> False | c # _ \<Rightarrow> c = CHR ''#'')"

definition parseLine :: "nat \<Rightarrow> string \<Rightarrow> line" where
  "parseLine idx l =
     (if trim l = [] then \<lparr>type = Blank, lineText = l, lineIdx = idx\<rparr>
      else if startsWithHash l then \<lparr>type = Comment, lineText = l, lineIdx = idx\<rparr>
      else \<lparr>type = Entry, lineText = l, lineIdx = idx\<rparr>)"

definition parseCrontab :: "string \<Rightarrow> line list" where
  "parseCrontab raw = map (\<lambda>(idx, l). parseLine idx l) (enumerate 0 (splitLines raw))"

text \<open>\<^verbatim>\<open>newLines.join("\n") + "\n"\<close>, the text written back for a list of line texts.\<close>

definition serializeLines :: "string list \<Rightarrow> string" where
  "serializeLines ls = joinLF ls @ [LF]"

section \<open>Reading the crontab\<close>

text \<open>
  \<^verbatim>\<open>
  async function loadCrontab(){
    showStatus(`Loading crontab for ${userDisplayName()}...`);
    try {
      const userFlag = getUserForCrontabFlag();
      const args = userFlag ? ["crontab","-u", userFlag, "-l"] : ["crontab","-l"];
      const res = await spawnCommand(args, isDifferentUser());
      let out = '';
      if (typeof res === 'string') out = res;
      else if (res.stdout) out = res.stdout;
      else if (Array.isArray(res)) out = res.join('');
      rawCrontab = out;
      parsedLines = parseCrontab(rawCrontab);
      renderList();
      showStatus(`Crontab loaded for ${userDisplayName()}`);
      log(`Loaded crontab for ${userDisplayName()}.`);
    } catch (err){
      if (isAccessDenied(err)){
        setError(`Admin access required to read crontab for ${userDisplayName()}.`);
        showStatus('Permission denied');
        log(`Access denied loading crontab for ${userDisplayName()}.`);
        return;
      }
      const output = errorText(err);
      if (output.toLowerCase().indexOf('no crontab for') !== -1){
        rawCrontab = '';
        parsedLines = [];
        renderList();
        showStatus(`No crontab for ${userDisplayName()}`);
        log(`No crontab for ${userDisplayName()}.`);
      } else {
        setError('Failed to read crontab: ' + (err.message || JSON.stringify(err)));
        showStatus('Error loading crontab');
        log('Error loading crontab: ' + (err.message || JSON.stringify(err)));
      }
    }
  }
  \<close>
  \<open>loadArgs\<close> is the command of the read, \<open>loadResolved\<close> the rest of the \<^verbatim>\<open>try\<close> block
  once the host has answered, \<open>loadCatch\<close> the \<^verbatim>\<open>catch\<close> block.
\<close>

definition loadArgs :: "session \<Rightarrow> string list" where
  "loadArgs st =
     (let userFlag = getUserForCrontabFlag st in
      if truthy userFlag then [''crontab'', ''-u'', the userFlag, ''-l''] else [''crontab'', ''-l''])"

definition loadResolved :: "spawn_value \<Rightarrow> session \<Rightarrow> session" where
  "loadResolved res st =
     (let out = (case res of
                   VString s \<Rightarrow> s
                 | VObject so \<Rightarrow> (if truthy so then the so else [])
                 | VArray xs \<Rightarrow> concat xs);
          st' = st\<lparr>rawCrontab := out, parsedLines := parseCrontab out\<rparr>
      in log (LogLoaded (userDisplayName st'))
           (showStatus (StatusLoaded (userDisplayName st')) st'))"

definition loadCatch :: "err \<Rightarrow> session \<Rightarrow> session" where
  "loadCatch e st =
     (if isAccessDenied e then
        log (LogDeniedLoad (userDisplayName st))
          (showStatus StatusPermissionDenied
            (setError (ErrAdminRead (userDisplayName st)) st))
      else
        (let output = errorText e in
         if contains (toLowerCase output) ''no crontab for'' then
           log (LogNoCrontab (userDisplayName st))
             (showStatus (StatusNoCrontab (userDisplayName st))
               (st\<lparr>rawCrontab := [], parsedLines := []\<rparr>))
         else
           log (LogErrorLoading (errDetail e))
             (showStatus StatusErrorLoading
               (setError (ErrFailedRead (errDetail e)) st))))"

definition loadCrontab :: "host \<Rightarrow> session \<Rightarrow> session" where
  "loadCrontab h st =
     (let st1 = showStatus (StatusLoading (userDisplayName st)) st in
      case spawnCommand h (loadArgs st1) (isDifferentUser st1) st1 of
        (Resolved res, st2) \<Rightarrow> loadResolved res st2
      | (Rejected e, st2) \<Rightarrow> loadCatch e st2)"

section \<open>Installing a crontab\<close>

text \<open>
  \<^verbatim>\<open>
  async function installCrontab(newContent){
    showStatus(`Installing crontab for ${userDisplayName()}...`);
    try {
      // create a temp file and write via tee (safer than relying on shell redirection)
      // Use mktemp
      const mk = await spawnCommand(["mktemp","-t","cockpit-cron-XXXXXX"], isDifferentUser());
      const tmp = (typeof mk === 'string') ? mk.trim()
                : (mk.stdout && mk.stdout.trim ? mk.stdout.trim() : mk.trim && mk.trim());
      if (!tmp){
        throw new Error('Failed to create temp file on host.');
      }
      // write content: use /bin/sh -c 'cat > tmp <<EOF ... EOF'
      const writeCmd = ["/bin/sh","-c", "cat > " + tmp + " <<'EOF'\n" + newContent + "\nEOF\n"];
      await spawnCommand(writeCmd, isDifferentUser());
      // install
      const userFlag = getUserForCrontabFlag();
      const installArgs = userFlag ? ["crontab","-u", userFlag, tmp] : ["crontab", tmp];
      await spawnCommand(installArgs, isDifferentUser());
      // remove tmp
      await spawnCommand(["rm","-f", tmp], isDifferentUser());
      log(`Installed updated crontab for ${userDisplayName()}.`);
      showStatus(`Crontab installed for ${userDisplayName()}`);
      await loadCrontab();
    } catch (err){
      if (isAccessDenied(err)){
        setError(`Admin access required to write crontab for ${userDisplayName()}.`);
        log(`Access denied installing crontab for ${userDisplayName()}.`);
      } else {
        setError('Failed to install crontab: ' + (err.message || JSON.stringify(err)));
        log('Install failed: ' + (err.message || JSON.stringify(err)));
      }
      showStatus('Install failed');
    }
  }
  \<close>
\<close>

definition mktempArgs :: "string list" where
  "mktempArgs = [''mktemp'', ''-t'', ''cockpit-cron-XXXXXX'']"

text \<open>The value of \<^verbatim>\<open>tmp\<close>: \<open>None\<close> is \<^verbatim>\<open>undefined\<close> (an object without a non-empty
  \<^verbatim>\<open>stdout\<close>, or an array, has no \<^verbatim>\<open>trim\<close>).\<close>

definition mktempPath :: "spawn_value \<Rightarrow> string option" where
  "mktempPath mk =
     (case mk of
        VString s \<Rightarrow> Some (trim s)
      | VObject so \<Rightarrow> (if truthy so then Some (trim (the so)) else None)
      | VArray xs \<Rightarrow> None)"

text \<open>The \<^verbatim>\<open>Error\<close> thrown when \<^verbatim>\<open>tmp\<close> is falsy.\<close>

definition tempFileError :: err where
  "tempFileError =
     \<lparr>problem = None, message = Some ''Failed to create temp file on host.'',
      stderr = None, stdout = None,
      toString = ''Error: Failed to create temp file on host.''\<rparr>"

definition writeCmd :: "string \<Rightarrow> string \<Rightarrow> string list" where
  "writeCmd tmp newContent =
     [''/bin/sh'', ''-c'', ''cat > '' @ tmp @ '' <<'EOF'\<newline>'' @ newContent @ ''\<newline>EOF\<newline>'']"

definition installArgs :: "string \<Rightarrow> session \<Rightarrow> string list" where
  "installArgs tmp st =
     (let userFlag = getUserForCrontabFlag st in
      if truthy userFlag then [''crontab'', ''-u'', the userFlag, tmp] else [''crontab'', tmp])"

definition rmArgs :: "string \<Rightarrow> string list" where
  "rmArgs tmp = [''rm'', ''-f'', tmp]"

definition installCatch :: "err \<Rightarrow> session \<Rightarrow> session" where
  "installCatch e st =
     showStatus StatusInstallFailed
       (if isAccessDenied e then
          log (LogDeniedInstall (userDisplayName st))
            (setError (ErrAdminWrite (userDisplayName st)) st)
        else
          log (LogInstallFailed (errDetail e))
            (setError (ErrFailedInstall (errDetail e)) st))"

definition installed :: "session \<Rightarrow> session" where
  "installed st =
     showStatus (StatusInstalled (userDisplayName st))
       (log (LogInstalled (userDisplayName st)) st)"

definition installCrontab :: "host \<Rightarrow> string \<Rightarrow> session \<Rightarrow> session" where
  "installCrontab h newContent st =
     (let st1 = showStatus (StatusInstalling (userDisplayName st)) st in
      case spawnCommand h mktempArgs (isDifferentUser st1) st1 of
        (Rejected e, st2) \<Rightarrow> installCatch e st2
      | (Resolved mk, st2) \<Rightarrow>
          (let tmp = mktempPath mk in
           if \<not> truthy tmp then installCatch tempFileError st2
           else
             case spawnCommand h (writeCmd (the tmp) newContent) (isDifferentUser st2) st2 of
               (Rejected e, st3) \<Rightarrow> installCatch e st3
             | (Resolved _, st3) \<Rightarrow>
                 (case spawnCommand h (installArgs (the tmp) st3) (isDifferentUser st3) st3 of
                    (Rejected e, st4) \<Rightarrow> installCatch e st4
                  | (Resolved _, st4) \<Rightarrow>
                      (case spawnCommand h (rmArgs (the tmp)) (isDifferentUser st4) st4 of
                         (Rejected e, st5) \<Rightarrow> installCatch e st5
                       | (Resolved _, st5) \<Rightarrow> loadCrontab h (installed st5)))))"

section \<open>Mutations\<close>

text \<open>
  \<^verbatim>\<open>
  async function addEntry(expr, cmd){
    if (!validateCron(expr)){
      setError('Invalid cron expression. Provide a 5-field schedule (e.g. "*/10 * * * *").');
      return;
    }
    clearError();
    const line = expr.trim() + ' ' + cmd.trim();
    const newContent = (rawCrontab && rawCrontab.trim() !== '')
        ? (rawCrontab.trimEnd() + "\n" + line + "\n") : (line + "\n");
    await installCrontab(newContent);
  }
  \<close>
\<close>

definition entryLine :: "string \<Rightarrow> string \<Rightarrow> string" where
  "entryLine expr cmd = trim expr @ '' '' @ trim cmd"

definition addEntryContent :: "string \<Rightarrow> string \<Rightarrow> string \<Rightarrow> string" where
  "addEntryContent raw expr cmd =
     (if raw \<noteq> [] \<and> trim raw \<noteq> []
      then trimEnd raw @ [LF] @ entryLine expr cmd @ [LF]
      else entryLine expr cmd @ [LF])"

definition addEntry :: "host \<Rightarrow> string \<Rightarrow> string \<Rightarrow> session \<Rightarrow> session" where
  "addEntry h expr cmd st =
     (if \<not> validateCron expr then setError ErrInvalidCron st
      else
        (let st1 = clearError st in
         installCrontab h (addEntryContent (rawCrontab st1) expr cmd) st1))"

text \<open>
  \<^verbatim>\<open>
  async function deleteEntryAt(parsedIndex){
    const newLines = parsedLines.filter((_,i) => i !== parsedIndex).map(p=>p.text);
    const newContent = newLines.join("\n") + "\n";
    await installCrontab(newContent);
  }
  \<close>
\<close>

definition deleteNewLines :: "line list \<Rightarrow> int \<Rightarrow> string list" where
  "deleteNewLines ps parsedIndex =
     map (\<lambda>(p, i). lineText p)
       (filter (\<lambda>(p, i). int i \<noteq> parsedIndex) (zip ps [0..<length ps]))"

definition deleteEntryAt :: "host \<Rightarrow> int \<Rightarrow> session \<Rightarrow> session" where
  "deleteEntryAt h parsedIndex st =
     installCrontab h (serializeLines (deleteNewLines (parsedLines st) parsedIndex)) st"

text \<open>
  The handler of the editor's save button:
  \<^verbatim>\<open>
  const content = editorArea.value || '';
  await installCrontab(content.endsWith('\n') ? content : content + '\n');
  \<close>
\<close>

definition editorSave :: "host \<Rightarrow> string \<Rightarrow> session \<Rightarrow> session" where
  "editorSave h content st =
     installCrontab h (if content \<noteq> [] \<and> last content = LF then content else content @ [LF]) st"

section \<open>The fields of a schedule expression\<close>

text \<open>
  The specification's reading of a schedule expression, to compare \<open>validateCron\<close> with:
  the fields are what white space separates, that is the maximal runs of characters that
  are not white space, from left to right.
\<close>

function scheduleFields :: "string \<Rightarrow> string list" where
  "scheduleFields [] = []"
| "scheduleFields (c # cs) =
     (if isSpace c then scheduleFields cs
      else (c # takeWhile (\<lambda>x. \<not> isSpace x) cs) # scheduleFields (dropWhile (\<lambda>x. \<not> isSpace x) cs))"
  by pat_completeness auto
termination
  by (relation "measure length") (auto simp: less_Suc_eq_le length_dropWhile_le)

section \<open>Concrete sessions and hosts\<close>

text \<open>
  A session of the user \<open>alice\<close> with one job loaded and no command sent yet, looking at
  her own crontab (\<open>sessionAlice\<close>) and at the crontab of \<open>bob\<close> (\<open>sessionBob\<close>).
\<close>

definition sessionAlice :: session where
  "sessionAlice =
     \<lparr>rawCrontab = ''0 2 * * * /usr/local/bin/backup.sh\<newline>'',
      parsedLines = parseCrontab ''0 2 * * * /usr/local/bin/backup.sh\<newline>'',
      currentUser = Some ''alice'', userSelect = Some ''alice'',
      errorContainer = None, statusEl = StatusInitial, logged = [], issued = []\<rparr>"

definition sessionBob :: session where
  "sessionBob = sessionAlice\<lparr>userSelect := Some ''bob''\<rparr>"

text \<open>A host that answers the first command it is sent with the first reply of a script,
  the second with the second, and so on, and every command after the script with empty
  output.\<close>

definition scripted :: "reply list \<Rightarrow> host" where
  "scripted rs hist =
     (if 0 < length hist \<and> length hist \<le> length rs then rs ! (length hist - 1)
      else Resolved (VString []))"

text \<open>Two failures of \<^verbatim>\<open>crontab -u bob -l\<close> that carry an access-denied signal and the
  phrase \<^verbatim>\<open>no crontab for\<close> at once, and one that carries the phrase only.\<close>

definition deniedByProblem :: err where
  "deniedByProblem =
     \<lparr>problem = Some ''access-denied'', message = Some ''Permission denied'',
      stderr = Some ''no crontab for bob\<newline>'', stdout = None,
      toString = ''Permission denied''\<rparr>"

definition deniedByMessage :: err where
  "deniedByMessage =
     \<lparr>problem = None, message = Some ''No crontab for bob: user alice is Not Authorized'',
      stderr = None, stdout = None,
      toString = ''No crontab for bob: user alice is Not Authorized''\<rparr>"

definition noCrontabFailure :: err where
  "noCrontabFailure =
     \<lparr>problem = None, message = Some ''crontab exited with code 1'',
      stderr = Some ''no crontab for bob\<newline>'', stdout = None,
      toString = ''crontab exited with code 1''\<rparr>"

text \<open>The replies of a host on which \<^verbatim>\<open>mktemp\<close> prints the path of the file it made, and on
  which a command prints nothing.\<close>

definition tmpReply :: reply where
  "tmpReply = Resolved (VString ''/tmp/cockpit-cron-Ab12Cd\<newline>'')"

definition okReply :: reply where
  "okReply = Resolved (VString [])"

text \<open>The failure of a command that exits with a non-zero status.\<close>

definition exitFailure :: err where
  "exitFailure =
     \<lparr>problem = None, message = Some ''sh exited with code 1'',
      stderr = None, stdout = None, toString = ''sh exited with code 1''\<rparr>"

section \<open>Runs in flight\<close>

text \<open>
  \<^verbatim>\<open>installCrontab\<close> is an \<^verbatim>\<open>async\<close> function: it runs until its next \<^verbatim>\<open>await\<close>, and
  the page handles other events until the host answers. A run that is waiting is a point
  of the function body: at the \<^verbatim>\<open>await\<close> of \<^verbatim>\<open>mktemp\<close> (with the content to install), of
  the write, of the install, of the removal (each with the path of the temp file), or at
  the \<^verbatim>\<open>await\<close> inside the \<^verbatim>\<open>loadCrontab\<close> that ends it.
\<close>

datatype pc = AwaitMktemp string | AwaitWrite string | AwaitInstall string | AwaitRm string
  | AwaitLoad

text \<open>The body of \<^verbatim>\<open>installCrontab\<close> up to its first \<^verbatim>\<open>await\<close>, and of \<^verbatim>\<open>loadCrontab\<close>
  up to its \<^verbatim>\<open>await\<close>.\<close>

definition installBegin :: "string \<Rightarrow> session \<Rightarrow> pc \<times> session" where
  "installBegin newContent st =
     (let st1 = showStatus (StatusInstalling (userDisplayName st)) st in
      (AwaitMktemp newContent, sendCommand mktempArgs (isDifferentUser st1) st1))"

definition loadBegin :: "session \<Rightarrow> session" where
  "loadBegin st =
     (let st1 = showStatus (StatusLoading (userDisplayName st)) st in
      sendCommand (loadArgs st1) (isDifferentUser st1) st1)"

text \<open>The body from one \<^verbatim>\<open>await\<close>, given the host's answer, to the next \<^verbatim>\<open>await\<close> or to the
  end of the run (\<open>None\<close>).\<close>

fun resume :: "pc \<Rightarrow> reply \<Rightarrow> session \<Rightarrow> pc option \<times> session" where
  "resume (AwaitMktemp newContent) (Rejected e) st = (None, installCatch e st)"
| "resume (AwaitMktemp newContent) (Resolved mk) st =
     (let tmp = mktempPath mk in
      if \<not> truthy tmp then (None, installCatch tempFileError st)
      else (Some (AwaitWrite (the tmp)),
            sendCommand (writeCmd (the tmp) newContent) (isDifferentUser st) st))"
| "resume (AwaitWrite tmp) (Rejected e) st = (None, installCatch e st)"
| "resume (AwaitWrite tmp) (Resolved _) st =
     (Some (AwaitInstall tmp), sendCommand (installArgs tmp st) (isDifferentUser st) st)"
| "resume (AwaitInstall tmp) (Rejected e) st = (None, installCatch e st)"
| "resume (AwaitInstall tmp) (Resolved _) st =
     (Some (AwaitRm tmp), sendCommand (rmArgs tmp) (isDifferentUser st) st)"
| "resume (AwaitRm tmp) (Rejected e) st = (None, installCatch e st)"
| "resume (AwaitRm tmp) (Resolved _) st = (Some AwaitLoad, loadBegin (installed st))"
| "resume AwaitLoad (Rejected e) st = (None, loadCatch e st)"
| "resume AwaitLoad (Resolved res) st = (None, loadResolved res st)"

text \<open>One run alone, each of its commands answered by the host as soon as it is sent.\<close>

fun stage :: "pc option \<Rightarrow> nat" where
  "stage None = 0"
| "stage (Some AwaitLoad) = 1"
| "stage (Some (AwaitRm _)) = 2"
| "stage (Some (AwaitInstall _)) = 3"
| "stage (Some (AwaitWrite _)) = 4"
| "stage (Some (AwaitMktemp _)) = 5"

function drive :: "host \<Rightarrow> pc option \<times> session \<Rightarrow> session" where
  "drive h (None, st) = st"
| "drive h (Some p, st) = drive h (resume p (h (issued st)) st)"
  by pat_completeness auto
termination
proof (relation "measure (\<lambda>(h, p, st). stage p)")
  fix h :: host and p :: pc and st :: session
  show "((h, resume p (h (issued st)) st), (h, Some p, st)) \<in> measure (\<lambda>(h, p, st). stage p)"
    by (cases p; cases "h (issued st)") (auto simp: Let_def)
qed simp

text \<open>
  The page: the runs in flight, in the order they started, and the session they share. Its
  events are the three mutation requests of the source (\<^verbatim>\<open>addEntry\<close>, \<^verbatim>\<open>deleteEntryAt\<close>, the
  editor's save), each of which calls \<^verbatim>\<open>installCrontab\<close>, and the host's answer to the
  command that the run at some position is waiting for.
\<close>

datatype event = AddEntry string string | DeleteEntryAt int | EditorSave string
  | Answer nat reply

definition start :: "string \<Rightarrow> pc list \<times> session \<Rightarrow> pc list \<times> session" where
  "start newContent w =
     (case installBegin newContent (snd w) of (p, st') \<Rightarrow> (fst w @ [p], st'))"

fun step :: "event \<Rightarrow> pc list \<times> session \<Rightarrow> pc list \<times> session" where
  "step (AddEntry expr cmd) (runs, st) =
     (if \<not> validateCron expr then (runs, setError ErrInvalidCron st)
      else (let st1 = clearError st in
            start (addEntryContent (rawCrontab st1) expr cmd) (runs, st1)))"
| "step (DeleteEntryAt parsedIndex) (runs, st) =
     start (serializeLines (deleteNewLines (parsedLines st) parsedIndex)) (runs, st)"
| "step (EditorSave content) (runs, st) =
     start (if content \<noteq> [] \<and> last content = LF then content else content @ [LF]) (runs, st)"
| "step (Answer i r) (runs, st) =
     (if i < length runs then
        (case resume (runs ! i) r st of
           (None, st') \<Rightarrow> (take i runs @ drop (Suc i) runs, st')
         | (Some p, st') \<Rightarrow> (runs[i := p], st'))
      else (runs, st))"

section \<open>Concrete runs\<close>

text \<open>A host on which every step of an install succeeds and the read that follows prints
  what was installed; one on which the write is refused; one on which the install is
  denied.\<close>

definition hostAllOk :: "string \<Rightarrow> host" where
  "hostAllOk content = scripted [tmpReply, okReply, okReply, okReply, Resolved (VString content)]"

definition hostWriteFails :: host where
  "hostWriteFails = scripted [tmpReply, Rejected exitFailure]"

definition hostInstallDenied :: host where
  "hostInstallDenied = scripted [tmpReply, okReply, Rejected deniedByProblem]"

text \<open>Two requests to add an entry, the second made while the first run waits for
  \<^verbatim>\<open>mktemp\<close>; then the host answers the first run's \<^verbatim>\<open>mktemp\<close> and the second's.\<close>

definition pageOneRequest :: "pc list \<times> session" where
  "pageOneRequest = step (AddEntry ''*/5 * * * *'' ''/bin/a'') ([], sessionAlice)"

definition pageTwoRequests :: "pc list \<times> session" where
  "pageTwoRequests = step (AddEntry ''0 1 * * *'' ''/bin/b'') pageOneRequest"

definition pageTwoWrites :: "pc list \<times> session" where
  "pageTwoWrites =
     step (Answer 1 (Resolved (VString ''/tmp/cockpit-cron-Xy34Zw\<newline>'')))
       (step (Answer 0 (Resolved (VString ''/tmp/cockpit-cron-Ab12Cd\<newline>''))) pageTwoRequests)"

section \<open>Properties of the string functions\<close>

lemma last_dropWhile: "dropWhile P xs \<noteq> [] \<Longrightarrow> last (dropWhile P xs) = last xs"
  by (metis append_take_drop_id dropWhile_eq_drop last_appendR)

lemma trimEnd_decomp: "\<exists>w. s = trimEnd s @ w \<and> (\<forall>c\<in>set w. isSpace c)"
proof -
  have "rev s = takeWhile isSpace (rev s) @ dropWhile isSpace (rev s)" by simp
  then have "s = rev (dropWhile isSpace (rev s)) @ rev (takeWhile isSpace (rev s))"
    by (metis rev_append rev_rev_ident)
  moreover have "\<forall>c\<in>set (rev (takeWhile isSpace (rev s))). isSpace c"
    by (auto dest: set_takeWhileD)
  ultimately show ?thesis unfolding trimEnd_def by blast
qed

lemma trimEnd_last: "trimEnd s \<noteq> [] \<Longrightarrow> \<not> isSpace (last (trimEnd s))"
  unfolding trimEnd_def by (metis hd_dropWhile last_rev rev_is_Nil_conv)

lemma trim_last: "trim s \<noteq> [] \<Longrightarrow> \<not> isSpace (last (trim s))"
  unfolding trim_def trimStart_def
  by (metis last_dropWhile trimEnd_last dropWhile.simps(1))

lemma trim_hd: "trim s \<noteq> [] \<Longrightarrow> \<not> isSpace (hd (trim s))"
  unfolding trim_def trimStart_def by (simp add: hd_dropWhile)

subsection \<open>Fields and \<open>split\<close>\<close>

lemma scheduleFields_dropWhile: "scheduleFields (dropWhile isSpace s) = scheduleFields s"
  by (induction s) auto

lemma scheduleFields_ne: "[] \<notin> set (scheduleFields s)"
  by (induction s rule: scheduleFields.induct) auto

lemma scheduleFields_Nil_iff: "scheduleFields s = [] \<longleftrightarrow> (\<forall>c\<in>set s. isSpace c)"
  by (induction s rule: scheduleFields.induct) auto

lemma takeWhile_nonspace_Nil:
  "\<forall>c\<in>set w. isSpace c \<Longrightarrow> takeWhile (\<lambda>x. \<not> isSpace x) w = []"
  by (cases w) auto

text \<open>On a string that does not end in white space, \<open>split\<close> yields the fields, after one
  empty field when the string starts with white space.\<close>

lemma splitWs_scheduleFields:
  "s \<noteq> [] \<Longrightarrow> \<not> isSpace (last s) \<Longrightarrow>
   splitWs s = (if isSpace (hd s) then [] # scheduleFields s else scheduleFields s)"
proof (induction s rule: splitWs.induct)
  case 1
  then show ?case by simp
next
  case (2 c cs)
  show ?case
  proof (cases "isSpace c")
    case True
    let ?d = "dropWhile isSpace cs"
    from True 2(3,4) have cs: "cs \<noteq> []" "\<not> isSpace (last cs)"
      by (auto split: if_splits)
    then have d: "?d \<noteq> []"
      by (metis dropWhile_eq_Nil_conv last_in_set)
    have "last ?d = last cs" using d by (rule last_dropWhile)
    with cs d have "splitWs ?d = (if isSpace (hd ?d) then [] # scheduleFields ?d else scheduleFields ?d)"
      using 2(1)[OF True] by simp
    moreover have "\<not> isSpace (hd ?d)" using d by (simp add: hd_dropWhile)
    ultimately show ?thesis using True by (simp add: scheduleFields_dropWhile)
  next
    case False
    show ?thesis
    proof (cases cs)
      case Nil
      then show ?thesis using False by simp
    next
      case (Cons d ds)
      with 2(4) have "\<not> isSpace (last cs)" by simp
      with Cons 2(2)[OF False]
      have IH: "splitWs cs = (if isSpace (hd cs) then [] # scheduleFields cs else scheduleFields cs)"
        by simp
      show ?thesis using False IH Cons by (simp add: Let_def)
    qed
  qed
qed

lemma scheduleFields_append_space: "\<forall>c\<in>set w. isSpace c \<Longrightarrow> scheduleFields (s @ w) = scheduleFields s"
proof (induction s rule: scheduleFields.induct)
  case 1
  then show ?case by (induction w) auto
next
  case (2 c cs)
  show ?case
  proof (cases "isSpace c")
    case True
    with 2 show ?thesis by simp
  next
    case False
    show ?thesis
    proof (cases "\<forall>x\<in>set cs. \<not> isSpace x")
      case True
      then have eqs: "takeWhile (\<lambda>x. \<not> isSpace x) cs = cs" "dropWhile (\<lambda>x. \<not> isSpace x) cs = []"
        by simp_all
      from True False 2(3) show ?thesis
        by (simp add: takeWhile_append dropWhile_append takeWhile_nonspace_Nil
            scheduleFields_Nil_iff[THEN iffD2] eqs)
    next
      case nall: False
      with False 2(2)[OF False 2(3)] show ?thesis
        by (auto simp: takeWhile_append dropWhile_append)
    qed
  qed
qed

lemma scheduleFields_trimEnd: "scheduleFields (trimEnd s) = scheduleFields s"
  using trimEnd_decomp[of s] scheduleFields_append_space by metis

lemma scheduleFields_trim: "scheduleFields (trim s) = scheduleFields s"
  by (simp add: trim_def trimStart_def scheduleFields_dropWhile scheduleFields_trimEnd)

lemma splitWs_trim: "splitWs (trim s) = (if scheduleFields s = [] then [[]] else scheduleFields s)"
proof (cases "trim s = []")
  case True
  then have "scheduleFields s = []" using scheduleFields_trim[of s] by simp
  with True show ?thesis by simp
next
  case False
  then have "scheduleFields (trim s) \<noteq> []"
    using trim_hd[OF False] by (cases "trim s") auto
  then show ?thesis
    using splitWs_scheduleFields[OF False trim_last[OF False]] trim_hd[OF False]
    by (simp add: scheduleFields_trim)
qed

section \<open>The schedule validator\<close>

text \<open>
  \<^bold>\<open>C6\<close>. For every string \<open>expr\<close>, \<open>validateCron expr\<close> is true if and only if \<open>expr\<close>,
  split on runs of white space, has between 5 and 7 fields, all of them non-empty (the
  code trims \<open>expr\<close> before it splits, so white space around the expression delimits no
  field). In particular \<^verbatim>\<open>"* * * * *"\<close> is valid; the four-field \<^verbatim>\<open>"* * * *"\<close>, the
  eight-field \<^verbatim>\<open>"a b c d e f g h"\<close> and the empty string are invalid.
\<close>

theorem validateCron_iff_scheduleFields:
  "(validateCron expr \<longleftrightarrow>
      5 \<le> length (scheduleFields expr) \<and> length (scheduleFields expr) \<le> 7 \<and> (\<forall>f\<in>set (scheduleFields expr). f \<noteq> []))
   \<and> validateCron ''* * * * *''
   \<and> \<not> validateCron ''* * * *''
   \<and> \<not> validateCron ''a b c d e f g h''
   \<and> \<not> validateCron ''''"
proof -
  have "validateCron expr \<longleftrightarrow>
      5 \<le> length (scheduleFields expr) \<and> length (scheduleFields expr) \<le> 7 \<and> (\<forall>f\<in>set (scheduleFields expr). f \<noteq> [])"
    using scheduleFields_ne[of expr]
    by (auto simp: validateCron_def splitWs_trim Let_def list_all_iff)
  moreover have "validateCron ''* * * * *''" by code_simp
  moreover have "\<not> validateCron ''* * * *''" by code_simp
  moreover have "\<not> validateCron ''a b c d e f g h''" by code_simp
  moreover have "\<not> validateCron ''''" by code_simp
  ultimately show ?thesis by blast
qed

theorem validateCron_iff_scheduleFields_witness:
  "scheduleFields ''  */10 8-18 * * 1-5 '' = [''*/10'', ''8-18'', ''*'', ''*'', ''1-5'']
   \<and> validateCron ''  */10 8-18 * * 1-5 ''"
proof -
  have f: "scheduleFields ''  */10 8-18 * * 1-5 '' = [''*/10'', ''8-18'', ''*'', ''*'', ''1-5'']"
    by code_simp
  show ?thesis
    using validateCron_iff_scheduleFields[of "''  */10 8-18 * * 1-5 ''"] unfolding f by simp
qed

section \<open>Elevation\<close>

text \<open>
  \<^bold>\<open>C8\<close>. Elevation is required exactly when a user is selected (the selector exists and
  its value is not empty) and that user is not the current user; with no selected user, or
  with the current user selected, it is not required. The same holds of the target that the
  crontab commands are given.
\<close>

theorem isDifferentUser_iff:
  "(isDifferentUser st \<longleftrightarrow> (\<exists>s. userSelect st = Some s \<and> s \<noteq> [] \<and> currentUser st \<noteq> Some s))
   \<and> (isDifferentUser st \<longleftrightarrow>
        getUserForCrontabFlag st \<noteq> None \<and> getUserForCrontabFlag st \<noteq> currentUser st)"
  by (cases "userSelect st"; cases "currentUser st")
     (auto simp: isDifferentUser_def getUserForCrontabFlag_def getSelectedUserValue_def Let_def)

section \<open>Lines: \<open>split\<close>, \<open>join\<close> and the parser\<close>

lemma splitLines_ne: "splitLines s \<noteq> []"
  by (induction s rule: splitLines.induct) (auto simp: Let_def)

lemma joinLF_push: "r \<noteq> [] \<Longrightarrow> joinLF ((c # hd r) # tl r) = c # joinLF r"
  by (cases r rule: joinLF.cases) auto

lemma joinLF_Nil_Cons: "r \<noteq> [] \<Longrightarrow> joinLF ([] # r) = LF # joinLF r"
  by (cases r) auto

lemma joinLF_splitLines: "\<not> sublist [CR, LF] T \<Longrightarrow> joinLF (splitLines T) = T"
proof (induction T rule: splitLines.induct)
  case 1
  then show ?case by simp
next
  case (2 c cs)
  from 2(4) have nsub: "\<not> sublist [CR, LF] cs" and npre: "\<not> prefix [CR, LF] (c # cs)"
    by (auto simp: sublist_Cons_right)
  show ?case
  proof (cases "c = LF")
    case True
    with 2(1) nsub show ?thesis by (simp add: joinLF_Nil_Cons splitLines_ne)
  next
    case False
    from npre have ncr: "\<not> (c = CR \<and> cs \<noteq> [] \<and> hd cs = LF)"
      by (cases cs) auto
    then have eq: "splitLines (c # cs) = (c # hd (splitLines cs)) # tl (splitLines cs)"
      using False by (auto simp: Let_def)
    have "joinLF (splitLines cs) = cs"
      using 2(3)[OF False ncr nsub] .
    then show ?thesis
      unfolding eq by (simp add: joinLF_push splitLines_ne)
  qed
qed

lemma lineText_parseLine: "lineText (parseLine idx l) = l"
  by (simp add: parseLine_def)

lemma lineIdx_parseLine: "lineIdx (parseLine idx l) = idx"
  by (simp add: parseLine_def)

lemma map_lineText_parse: "map lineText (parseCrontab T) = splitLines T"
  unfolding parseCrontab_def
  by (simp add: enumerate_eq_zip lineText_parseLine split_def o_def map_snd_zip_take)

lemma map_lineIdx_parse: "map lineIdx (parseCrontab T) = [0..<length (splitLines T)]"
  unfolding parseCrontab_def
  by (simp add: enumerate_eq_zip lineIdx_parseLine split_def o_def map_fst_zip_take)

lemma length_parseCrontab: "length (parseCrontab T) = length (splitLines T)"
  by (simp add: parseCrontab_def)

lemma trim_Nil_iff: "trim s = [] \<longleftrightarrow> (\<forall>c\<in>set s. isSpace c)"
proof
  assume "trim s = []"
  then have "\<forall>c\<in>set (trimEnd s). isSpace c"
    by (simp add: trim_def trimStart_def)
  then have "trimEnd s = []"
    using trimEnd_last[of s] last_in_set[of "trimEnd s"] by blast
  then show "\<forall>c\<in>set s. isSpace c"
    using trimEnd_decomp[of s] by auto
next
  assume "\<forall>c\<in>set s. isSpace c"
  then have d: "dropWhile isSpace (rev s) = []"
    by (metis dropWhile_eq_Nil_conv set_rev)
  show "trim s = []"
    unfolding trim_def trimStart_def trimEnd_def d by simp
qed

lemma type_parseLine:
  "type (parseLine idx l) =
     (if trim l = [] then Blank
      else if hd (trimStart l) = CHR ''#'' then Comment else Entry)"
proof (cases "trim l = []")
  case True
  then show ?thesis by (simp add: parseLine_def)
next
  case False
  then have "dropWhile isSpace l \<noteq> []" by (auto simp: trim_Nil_iff)
  then show ?thesis using False
    by (cases "dropWhile isSpace l") (auto simp: parseLine_def startsWithHash_def trimStart_def)
qed

lemma parse_lines_classified:
  "l \<in> set (parseCrontab T) \<Longrightarrow>
   type l = (if trim (lineText l) = [] then Blank
             else if hd (trimStart (lineText l)) = CHR ''#'' then Comment else Entry)"
  unfolding parseCrontab_def
  by (auto simp: type_parseLine lineText_parseLine)

text \<open>Written back, a text with \<^verbatim>\<open>\n\<close> line endings comes out with one more line feed
  at its end, whatever its end was.\<close>

lemma serializeLines_parseCrontab:
  "\<not> sublist [CR, LF] T \<Longrightarrow> serializeLines (map lineText (parseCrontab T)) = T @ [LF]"
  by (simp add: serializeLines_def map_lineText_parse joinLF_splitLines)

lemma parseCrontab_empty: "parseCrontab [] = [\<lparr>type = Blank, lineText = [], lineIdx = 0\<rparr>]"
  by (simp add: parseCrontab_def parseLine_def trim_def trimStart_def trimEnd_def)

text \<open>
  \<^bold>\<open>C5\<close>. The round trip of a text that ends in a line feed, as the output of
  \<^verbatim>\<open>crontab -l\<close> does, is not that text: the parser keeps the empty line after the last
  line feed, and joining the lines and appending a line feed gives the text with a second
  line feed at its end, which parses to one more blank line. So the content that
  \<open>deleteEntryAt\<close> builds for a two-job crontab, once its first line is removed, is the
  other job followed by two line feeds, where the content that \<open>addEntry\<close> builds from a
  text that ends in a line feed ends in one line feed.
\<close>

theorem roundtrip_adds_blank_line:
  "parseCrontab ''0 2 * * * /usr/local/bin/backup.sh\<newline>'' =
     [\<lparr>type = Entry, lineText = ''0 2 * * * /usr/local/bin/backup.sh'', lineIdx = 0\<rparr>,
      \<lparr>type = Blank, lineText = [], lineIdx = 1\<rparr>]
   \<and> serializeLines (map lineText (parseCrontab ''0 2 * * * /usr/local/bin/backup.sh\<newline>'')) =
     ''0 2 * * * /usr/local/bin/backup.sh\<newline>\<newline>''
   \<and> parseCrontab ''0 2 * * * /usr/local/bin/backup.sh\<newline>\<newline>'' =
     [\<lparr>type = Entry, lineText = ''0 2 * * * /usr/local/bin/backup.sh'', lineIdx = 0\<rparr>,
      \<lparr>type = Blank, lineText = [], lineIdx = 1\<rparr>,
      \<lparr>type = Blank, lineText = [], lineIdx = 2\<rparr>]
   \<and> serializeLines (deleteNewLines
         (parseCrontab ''5 4 * * * /bin/b\<newline>0 2 * * * /usr/local/bin/backup.sh\<newline>'') 0) =
     ''0 2 * * * /usr/local/bin/backup.sh\<newline>\<newline>''
   \<and> addEntryContent ''0 2 * * * /usr/local/bin/backup.sh\<newline>'' ''5 4 * * *'' ''/bin/b'' =
     ''0 2 * * * /usr/local/bin/backup.sh\<newline>5 4 * * * /bin/b\<newline>''"
  by code_simp

section \<open>The read path\<close>

lemma user_cong:
  assumes "userSelect st' = userSelect st" "currentUser st' = currentUser st"
  shows "getSelectedUserValue st' = getSelectedUserValue st"
    and "getUserForCrontabFlag st' = getUserForCrontabFlag st"
    and "isDifferentUser st' = isDifferentUser st"
    and "userDisplayName st' = userDisplayName st"
    and "loadArgs st' = loadArgs st"
    and "installArgs t st' = installArgs t st"
proof -
  show a: "getSelectedUserValue st' = getSelectedUserValue st"
    unfolding getSelectedUserValue_def assms ..
  show b: "getUserForCrontabFlag st' = getUserForCrontabFlag st"
    unfolding getUserForCrontabFlag_def a ..
  show "isDifferentUser st' = isDifferentUser st"
    unfolding isDifferentUser_def b assms ..
  show "userDisplayName st' = userDisplayName st"
    unfolding userDisplayName_def b assms ..
  show "loadArgs st' = loadArgs st"
    unfolding loadArgs_def b ..
  show "installArgs t st' = installArgs t st"
    unfolding installArgs_def b ..
qed

lemma user_showStatus [simp]:
  "getUserForCrontabFlag (showStatus m st) = getUserForCrontabFlag st"
  "isDifferentUser (showStatus m st) = isDifferentUser st"
  "userDisplayName (showStatus m st) = userDisplayName st"
  "loadArgs (showStatus m st) = loadArgs st"
  "installArgs t (showStatus m st) = installArgs t st"
  by (rule user_cong; simp add: showStatus_def)+

lemma user_issued [simp]:
  "getUserForCrontabFlag (st\<lparr>issued := x\<rparr>) = getUserForCrontabFlag st"
  "isDifferentUser (st\<lparr>issued := x\<rparr>) = isDifferentUser st"
  "userDisplayName (st\<lparr>issued := x\<rparr>) = userDisplayName st"
  "loadArgs (st\<lparr>issued := x\<rparr>) = loadArgs st"
  "installArgs t (st\<lparr>issued := x\<rparr>) = installArgs t st"
  by (rule user_cong; simp)+

lemma loadCrontab_rejected:
  assumes "h (issued st @ [(loadArgs st, isDifferentUser st)]) = Rejected e"
  shows "loadCrontab h st =
         loadCatch e ((showStatus (StatusLoading (userDisplayName st)) st)
                        \<lparr>issued := issued st @ [(loadArgs st, isDifferentUser st)]\<rparr>)"
proof -
  have "issued (showStatus (StatusLoading (userDisplayName st)) st) = issued st"
    by (simp add: showStatus_def)
  then show ?thesis
    using assms by (simp add: loadCrontab_def spawnCommand_def sendCommand_def Let_def)
qed

text \<open>
  \<^bold>\<open>C10\<close>. On the read path the access-denied test comes first: when the read command
  fails with a failure that \<open>isAccessDenied\<close> accepts (the problem code
  \<^verbatim>\<open>access-denied\<close>, or a message matching the permission pattern without regard to
  case), \<open>loadCrontab\<close> reports the permission denial and leaves the raw content and the
  parsed lines as they were, whatever else the failure carries, the phrase
  \<^verbatim>\<open>no crontab for\<close> included.
\<close>

theorem load_access_denied_precedence:
  assumes "h (issued st @ [(loadArgs st, isDifferentUser st)]) = Rejected e"
    and "isAccessDenied e"
  shows "rawCrontab (loadCrontab h st) = rawCrontab st
       \<and> parsedLines (loadCrontab h st) = parsedLines st
       \<and> statusEl (loadCrontab h st) = StatusPermissionDenied
       \<and> errorContainer (loadCrontab h st) = Some (ErrAdminRead (userDisplayName st))"
  unfolding loadCrontab_rejected[of h st e, OF assms(1)]
  using assms(2)
  by (simp add: loadCatch_def log_def setError_def) (simp add: showStatus_def)

theorem load_access_denied_precedence_witness:
  "isAccessDenied deniedByMessage
   \<and> contains (toLowerCase (errorText deniedByMessage)) ''no crontab for''
   \<and> rawCrontab (loadCrontab (scripted [Rejected deniedByMessage]) sessionBob)
       = ''0 2 * * * /usr/local/bin/backup.sh\<newline>''
   \<and> parsedLines (loadCrontab (scripted [Rejected deniedByMessage]) sessionBob)
       = parsedLines sessionBob
   \<and> statusEl (loadCrontab (scripted [Rejected deniedByMessage]) sessionBob)
       = StatusPermissionDenied
   \<and> errorContainer (loadCrontab (scripted [Rejected deniedByMessage]) sessionBob)
       = Some (ErrAdminRead ''bob'')"
proof -
  have h: "scripted [Rejected deniedByMessage]
             (issued sessionBob @ [(loadArgs sessionBob, isDifferentUser sessionBob)])
           = Rejected deniedByMessage"
    by (simp add: scripted_def sessionBob_def sessionAlice_def)
  have a: "isAccessDenied deniedByMessage" by code_simp
  have c: "contains (toLowerCase (errorText deniedByMessage)) ''no crontab for''" by code_simp
  have n: "userDisplayName sessionBob = ''bob''" by code_simp
  have r: "rawCrontab sessionBob = ''0 2 * * * /usr/local/bin/backup.sh\<newline>''"
    by (simp add: sessionBob_def sessionAlice_def)
  show ?thesis
    using load_access_denied_precedence[of "scripted [Rejected deniedByMessage]" sessionBob, OF h a] a c n r
    by simp
qed

text \<open>
  \<^bold>\<open>C7\<close>, as amended. When the read command fails with a failure that is not
  access-denied and whose error text contains \<^verbatim>\<open>no crontab for\<close> without regard to case,
  \<open>loadCrontab\<close> treats it as an empty document and not as an error: the raw content and
  the parsed lines become empty, no error is shown, and the status says that there is no
  crontab.
\<close>

theorem load_no_crontab_empty_document:
  assumes "h (issued st @ [(loadArgs st, isDifferentUser st)]) = Rejected e"
    and "\<not> isAccessDenied e"
    and "contains (toLowerCase (errorText e)) ''no crontab for''"
  shows "rawCrontab (loadCrontab h st) = []
       \<and> parsedLines (loadCrontab h st) = []
       \<and> errorContainer (loadCrontab h st) = errorContainer st
       \<and> statusEl (loadCrontab h st) = StatusNoCrontab (userDisplayName st)"
  unfolding loadCrontab_rejected[of h st e, OF assms(1)]
  using assms(2,3)
  by (simp add: loadCatch_def log_def setError_def Let_def) (simp add: showStatus_def)

theorem load_no_crontab_empty_document_witness:
  "\<not> isAccessDenied noCrontabFailure
   \<and> contains (toLowerCase (errorText noCrontabFailure)) ''no crontab for''
   \<and> rawCrontab (loadCrontab (scripted [Rejected noCrontabFailure]) sessionBob) = []
   \<and> parsedLines (loadCrontab (scripted [Rejected noCrontabFailure]) sessionBob) = []
   \<and> errorContainer (loadCrontab (scripted [Rejected noCrontabFailure]) sessionBob) = None
   \<and> statusEl (loadCrontab (scripted [Rejected noCrontabFailure]) sessionBob)
       = StatusNoCrontab ''bob''"
proof -
  have h: "scripted [Rejected noCrontabFailure]
             (issued sessionBob @ [(loadArgs sessionBob, isDifferentUser sessionBob)])
           = Rejected noCrontabFailure"
    by (simp add: scripted_def sessionBob_def sessionAlice_def)
  have a: "\<not> isAccessDenied noCrontabFailure" by code_simp
  have c: "contains (toLowerCase (errorText noCrontabFailure)) ''no crontab for''" by code_simp
  have n: "userDisplayName sessionBob = ''bob''" by code_simp
  have r: "errorContainer sessionBob = None"
    by (simp add: sessionBob_def sessionAlice_def)
  show ?thesis
    using load_no_crontab_empty_document[of "scripted [Rejected noCrontabFailure]" sessionBob, OF h a c] a c n r
    by simp
qed

text \<open>
  The claim C7 as stated fails for a failure that also carries an access-denied signal: the
  error text contains \<^verbatim>\<open>no crontab for bob\<close>, yet the read ends in the permission denial
  and the document is kept.
\<close>

theorem load_no_crontab_counterexample:
  "contains (toLowerCase (errorText deniedByProblem)) ''no crontab for''
   \<and> rawCrontab (loadCrontab (scripted [Rejected deniedByProblem]) sessionBob)
       = ''0 2 * * * /usr/local/bin/backup.sh\<newline>''
   \<and> parsedLines (loadCrontab (scripted [Rejected deniedByProblem]) sessionBob) \<noteq> []
   \<and> errorContainer (loadCrontab (scripted [Rejected deniedByProblem]) sessionBob)
       = Some (ErrAdminRead ''bob'')
   \<and> statusEl (loadCrontab (scripted [Rejected deniedByProblem]) sessionBob)
       = StatusPermissionDenied"
proof -
  have h: "scripted [Rejected deniedByProblem]
             (issued sessionBob @ [(loadArgs sessionBob, isDifferentUser sessionBob)])
           = Rejected deniedByProblem"
    by (simp add: scripted_def sessionBob_def sessionAlice_def)
  have a: "isAccessDenied deniedByProblem" by (simp add: isAccessDenied_def deniedByProblem_def)
  have c: "contains (toLowerCase (errorText deniedByProblem)) ''no crontab for''" by code_simp
  have n: "userDisplayName sessionBob = ''bob''" by code_simp
  have r: "rawCrontab sessionBob = ''0 2 * * * /usr/local/bin/backup.sh\<newline>''"
    by (simp add: sessionBob_def sessionAlice_def)
  have p: "parsedLines sessionBob \<noteq> []"
    by (simp add: sessionBob_def sessionAlice_def parseCrontab_def splitLines_ne)
  show ?thesis
    unfolding loadCrontab_rejected[of "scripted [Rejected deniedByProblem]" sessionBob, OF h]
    using a c n r p
    by (simp add: loadCatch_def log_def setError_def) (simp add: showStatus_def)
qed

section \<open>Deleting a line\<close>

lemma filter_index_out:
  assumes "\<forall>i\<in>set js. int i \<noteq> k"
  shows "filter (\<lambda>(p, i). int i \<noteq> k) (zip ps js) = zip ps js"
proof -
  have "\<forall>x\<in>set (zip ps js). (\<lambda>(p, i). int i \<noteq> k) x"
    using assms by (auto dest: set_zip_rightD)
  then show ?thesis by (simp add: filter_id_conv)
qed

lemma deleteNewLines_out_of_range:
  assumes "\<not> (0 \<le> k \<and> k < int (length ps))"
  shows "deleteNewLines ps k = map lineText ps"
proof -
  have "\<forall>i\<in>set [0..<length ps]. int i \<noteq> k" using assms by auto
  then have "filter (\<lambda>(p, i). int i \<noteq> k) (zip ps [0..<length ps]) = zip ps [0..<length ps]"
    by (rule filter_index_out)
  then show ?thesis
    by (simp add: deleteNewLines_def split_def map_fst_zip_take flip: map_map [unfolded o_def])
qed

lemma deleteNewLines_in_range:
  assumes "0 \<le> k" "k < int (length ps)"
  shows "deleteNewLines ps k = map lineText (take (nat k) ps @ drop (Suc (nat k)) ps)"
proof -
  define n where "n = nat k"
  have n: "n < length ps" "k = int n" using assms by (simp_all add: n_def)
  have ps: "ps = take n ps @ ps ! n # drop (Suc n) ps"
    using n(1) by (simp add: id_take_nth_drop)
  have upt: "[0..<length ps] = [0..<n] @ n # [Suc n..<length ps]"
    using n(1) by (metis le_add1 less_imp_add_positive upt_add_eq_append upt_conv_Cons plus_nat.add_0)
  have z: "zip ps [0..<length ps] =
           zip (take n ps) [0..<n] @ (ps ! n, n) # zip (drop (Suc n) ps) [Suc n..<length ps]"
    by (subst ps, subst upt) (use n(1) in \<open>simp add: min_def\<close>)
  define P where "P = (\<lambda>(p :: line, i). int i \<noteq> k)"
  have a: "filter P (zip (take n ps) [0..<n]) = zip (take n ps) [0..<n]"
    unfolding P_def by (rule filter_index_out) (use n(2) in auto)
  have b: "filter P (zip (drop (Suc n) ps) [Suc n..<length ps])
           = zip (drop (Suc n) ps) [Suc n..<length ps]"
    unfolding P_def by (rule filter_index_out) (use n(2) in auto)
  have c: "\<not> P (ps ! n, n)" by (simp add: P_def n(2))
  have "filter P (zip ps [0..<length ps])
        = zip (take n ps) [0..<n] @ zip (drop (Suc n) ps) [Suc n..<length ps]"
    unfolding z by (simp add: a b c)
  then have "map fst (filter P (zip ps [0..<length ps])) = take n ps @ drop (Suc n) ps"
    using n(1) by (simp add: map_fst_zip_take min_def)
  then have "map fst (filter (\<lambda>(p, i). int i \<noteq> k) (zip ps [0..<length ps]))
        = take n ps @ drop (Suc n) ps"
    unfolding P_def .
  then show ?thesis
    unfolding n_def[symmetric]
    by (simp add: deleteNewLines_def split_def flip: map_map [unfolded o_def])
qed

text \<open>
  \<^bold>\<open>C4\<close>, as amended. For every list of parsed lines and every index \<open>i\<close>: when
  \<open>0 \<le> i < n\<close> the new line list is the old one without the line at position \<open>i\<close>, the
  others in their order, and has \<open>n - 1\<close> lines; when \<open>i\<close> is out of bounds nothing fails:
  no line is removed. In both cases the new list, joined and ended by a line feed, is what
  \<open>installCrontab\<close> is called with.
\<close>

theorem deleteEntryAt_removes_line:
  "(0 \<le> i \<and> i < int (length ps) \<longrightarrow>
      deleteNewLines ps i = map lineText (take (nat i) ps @ drop (Suc (nat i)) ps)
    \<and> length (deleteNewLines ps i) = length ps - 1)
   \<and> (\<not> (0 \<le> i \<and> i < int (length ps)) \<longrightarrow> deleteNewLines ps i = map lineText ps)
   \<and> deleteEntryAt h i st =
       installCrontab h (serializeLines (deleteNewLines (parsedLines st) i)) st"
proof -
  have "length (deleteNewLines ps i) = length ps - 1" if "0 \<le> i" "i < int (length ps)"
    using that deleteNewLines_in_range[OF that] by (simp add: min_def)
  then show ?thesis
    using deleteNewLines_in_range[of i ps] deleteNewLines_out_of_range[of i ps]
    by (auto simp: deleteEntryAt_def)
qed

theorem deleteEntryAt_removes_line_witness:
  "deleteNewLines (parseCrontab ''# jobs\<newline>0 2 * * * /bin/a\<newline>5 4 * * * /bin/b'') 1
     = [''# jobs'', ''5 4 * * * /bin/b'']
   \<and> deleteNewLines (parseCrontab ''# jobs\<newline>0 2 * * * /bin/a\<newline>5 4 * * * /bin/b'') 3
     = [''# jobs'', ''0 2 * * * /bin/a'', ''5 4 * * * /bin/b'']
   \<and> deleteNewLines (parseCrontab ''# jobs\<newline>0 2 * * * /bin/a\<newline>5 4 * * * /bin/b'') (- 1)
     = [''# jobs'', ''0 2 * * * /bin/a'', ''5 4 * * * /bin/b'']"
proof -
  let ?ps = "parseCrontab ''# jobs\<newline>0 2 * * * /bin/a\<newline>5 4 * * * /bin/b''"
  have p: "?ps = [\<lparr>type = Comment, lineText = ''# jobs'', lineIdx = 0\<rparr>,
                  \<lparr>type = Entry, lineText = ''0 2 * * * /bin/a'', lineIdx = 1\<rparr>,
                  \<lparr>type = Entry, lineText = ''5 4 * * * /bin/b'', lineIdx = 2\<rparr>]"
    by code_simp
  show ?thesis
    using deleteEntryAt_removes_line[of 1 ?ps] deleteEntryAt_removes_line[of 3 ?ps]
      deleteEntryAt_removes_line[of "- 1" ?ps]
    unfolding p by simp
qed

text \<open>
  The claim C4 as stated fails for an index out of bounds: with two parsed lines and index 7
  there is no error; the unchanged lines are written to the temp file and installed, and the
  run ends with the crontab loaded.
\<close>

theorem deleteEntryAt_index_error_counterexample:
  "length (parsedLines sessionAlice) = 2
   \<and> map fst (issued (deleteEntryAt
        (hostAllOk ''0 2 * * * /usr/local/bin/backup.sh\<newline>\<newline>'') 7 sessionAlice)) =
      [mktempArgs,
       writeCmd ''/tmp/cockpit-cron-Ab12Cd'' ''0 2 * * * /usr/local/bin/backup.sh\<newline>\<newline>'',
       [''crontab'', ''-u'', ''alice'', ''/tmp/cockpit-cron-Ab12Cd''],
       [''rm'', ''-f'', ''/tmp/cockpit-cron-Ab12Cd''],
       [''crontab'', ''-u'', ''alice'', ''-l'']]
   \<and> errorContainer (deleteEntryAt
        (hostAllOk ''0 2 * * * /usr/local/bin/backup.sh\<newline>\<newline>'') 7 sessionAlice) = None
   \<and> statusEl (deleteEntryAt
        (hostAllOk ''0 2 * * * /usr/local/bin/backup.sh\<newline>\<newline>'') 7 sessionAlice)
      = StatusLoaded ''alice''"
  by code_simp

section \<open>Appending an entry\<close>

lemma splitLines_no_LF: "LF \<notin> set L \<Longrightarrow> splitLines L = [L]"
  by (induction L rule: splitLines.induct) (auto simp: Let_def dest: hd_in_set)

lemma splitLines_append_LF:
  "A = [] \<or> last A \<noteq> CR \<Longrightarrow> splitLines (A @ LF # B) = splitLines A @ splitLines B"
proof (induction A rule: splitLines.induct)
  case 1
  then show ?case by simp
next
  case (2 c cs)
  from 2(4) have last: "cs = [] \<or> last cs \<noteq> CR" by (auto split: if_splits)
  show ?case
  proof (cases "c = LF")
    case True
    with 2(1) last show ?thesis by simp
  next
    case nlf: False
    show ?thesis
    proof (cases "c = CR \<and> cs \<noteq> [] \<and> hd cs = LF")
      case True
      then have "tl cs = [] \<or> last (tl cs) \<noteq> CR"
        using last by (cases cs) (auto split: if_splits)
      with True nlf 2(2) have "splitLines (tl cs @ LF # B) = splitLines (tl cs) @ splitLines B"
        by simp
      with True nlf show ?thesis by (cases cs) auto
    next
      case False
      have IH: "splitLines (cs @ LF # B) = splitLines cs @ splitLines B"
        using 2(3)[OF nlf False last] .
      have ncr: "\<not> (c = CR \<and> cs @ LF # B \<noteq> [] \<and> hd (cs @ LF # B) = LF)"
      proof (cases cs)
        case Nil
        with 2(4) show ?thesis by simp
      next
        case (Cons d ds)
        with False show ?thesis by auto
      qed
      have "splitLines (c # cs @ LF # B) =
              (c # hd (splitLines (cs @ LF # B))) # tl (splitLines (cs @ LF # B))"
        using nlf ncr by (simp add: Let_def)
      also have "\<dots> = (c # hd (splitLines cs)) # tl (splitLines cs) @ splitLines B"
        unfolding IH by (simp add: splitLines_ne)
      also have "\<dots> = splitLines (c # cs) @ splitLines B"
        using nlf False by (simp add: Let_def)
      finally show ?thesis by simp
    qed
  qed
qed

lemma validateCron_trim_ne: "validateCron expr \<Longrightarrow> trim expr \<noteq> []"
proof
  assume v: "validateCron expr" and "trim expr = []"
  then have "scheduleFields expr = []"
    using scheduleFields_trim[of expr] by simp
  with v show False
    by (simp add: validateCron_def splitWs_trim Let_def)
qed

lemma entryLine_props:
  assumes "validateCron expr"
  shows "trim (entryLine expr cmd) \<noteq> []"
    and "dropWhile isSpace (entryLine expr cmd) = entryLine expr cmd"
    and "hd (entryLine expr cmd) = hd (trim expr)"
    and "entryLine expr cmd \<noteq> []"
    and "last (entryLine expr cmd) \<noteq> CR"
proof -
  let ?L = "entryLine expr cmd"
  have ne: "trim expr \<noteq> []" using assms by (rule validateCron_trim_ne)
  have hd: "\<not> isSpace (hd (trim expr))" using ne by (rule trim_hd)
  show "?L \<noteq> []" using ne by (simp add: entryLine_def)
  show h: "hd ?L = hd (trim expr)" using ne by (simp add: entryLine_def)
  show "dropWhile isSpace ?L = ?L"
    using ne hd by (cases "trim expr") (auto simp: entryLine_def)
  have "hd (trim expr) \<in> set ?L" using ne by (cases "trim expr") (auto simp: entryLine_def)
  with hd show "trim ?L \<noteq> []" by (auto simp: trim_Nil_iff)
  have cr: "isSpace CR" by (simp add: isSpace_def)
  show "last ?L \<noteq> CR"
  proof (cases "trim cmd = []")
    case True
    then show ?thesis by (simp add: entryLine_def)
  next
    case False
    then have "last ?L = last (trim cmd)" by (simp add: entryLine_def)
    with trim_last[OF False] cr show ?thesis by auto
  qed
qed

lemma parseLine_entryLine_type:
  assumes "validateCron expr"
  shows "parseLine n (entryLine expr cmd) =
         \<lparr>type = (if hd (trim expr) = CHR ''#'' then Comment else Entry),
          lineText = entryLine expr cmd, lineIdx = n\<rparr>"
proof -
  note p = entryLine_props[OF assms, of cmd]
  have "startsWithHash (entryLine expr cmd) \<longleftrightarrow> hd (trim expr) = CHR ''#''"
    unfolding startsWithHash_def p(2) using p(3,4)
    by (cases "entryLine expr cmd") auto
  with p(1) show ?thesis by (simp add: parseLine_def)
qed

lemma parseLine_empty: "parseLine n [] = \<lparr>type = Blank, lineText = [], lineIdx = n\<rparr>"
  by (simp add: parseLine_def trim_def trimStart_def trimEnd_def)

lemma splitLines_entryLine_LF:
  assumes "validateCron expr"
  shows "splitLines (entryLine expr cmd @ [LF]) = splitLines (entryLine expr cmd) @ [[]]"
  using splitLines_append_LF[of "entryLine expr cmd" "[]"] entryLine_props(5)[OF assms, of cmd]
  by simp

lemma parseCrontab_append:
  "splitLines T = xs @ ys \<Longrightarrow>
   parseCrontab T = map (\<lambda>(idx, l). parseLine idx l) (enumerate 0 xs)
                  @ map (\<lambda>(idx, l). parseLine idx l) (enumerate (length xs) ys)"
  by (simp add: parseCrontab_def enumerate_append_eq)

lemma trimEnd_ne: "trim raw \<noteq> [] \<Longrightarrow> trimEnd raw \<noteq> []"
  by (auto simp: trim_def trimStart_def)

lemma splitLines_addEntryContent:
  assumes "validateCron expr"
  shows "splitLines (addEntryContent raw expr cmd) =
           (if trim raw = [] then [] else splitLines (trimEnd raw))
           @ splitLines (entryLine expr cmd) @ [[]]"
proof (cases "trim raw = []")
  case True
  then show ?thesis
    by (simp add: addEntryContent_def splitLines_entryLine_LF[OF assms])
next
  case False
  let ?A = "trimEnd raw"
  from False have rne: "raw \<noteq> []" by (auto simp: trim_def trimStart_def trimEnd_def)
  have A: "?A = [] \<or> last ?A \<noteq> CR"
    using trimEnd_last[OF trimEnd_ne[OF False]] by (auto simp: isSpace_def)
  have c: "addEntryContent raw expr cmd = ?A @ LF # (entryLine expr cmd @ [LF])"
    using False rne by (simp add: addEntryContent_def)
  show ?thesis
    unfolding c splitLines_append_LF[OF A] splitLines_entryLine_LF[OF assms]
    using False by simp
qed

lemma addEntryContent_parse_line:
  assumes "validateCron expr" "LF \<notin> set (entryLine expr cmd)"
  shows "parseCrontab (addEntryContent raw expr cmd) =
           (if trim raw = [] then
              [\<lparr>type = (if hd (trim expr) = CHR ''#'' then Comment else Entry),
                lineText = entryLine expr cmd, lineIdx = 0\<rparr>,
               \<lparr>type = Blank, lineText = [], lineIdx = 1\<rparr>]
            else
              parseCrontab (trimEnd raw) @
              [\<lparr>type = (if hd (trim expr) = CHR ''#'' then Comment else Entry),
                lineText = entryLine expr cmd,
                lineIdx = length (parseCrontab (trimEnd raw))\<rparr>,
               \<lparr>type = Blank, lineText = [],
                lineIdx = Suc (length (parseCrontab (trimEnd raw)))\<rparr>])"
proof (cases "trim raw = []")
  case True
  then show ?thesis
    using splitLines_addEntryContent[OF assms(1), of raw cmd] splitLines_no_LF[OF assms(2)]
      parseLine_entryLine_type[OF assms(1)]
    by (simp add: parseCrontab_def parseLine_empty)
next
  case False
  have "splitLines (addEntryContent raw expr cmd) =
          splitLines (trimEnd raw) @ [entryLine expr cmd, []]"
    using False splitLines_addEntryContent[OF assms(1), of raw cmd] splitLines_no_LF[OF assms(2)]
    by simp
  from parseCrontab_append[OF this] show ?thesis
    using False parseLine_entryLine_type[OF assms(1)]
    by (simp add: parseLine_empty length_parseCrontab) (simp add: parseCrontab_def)
qed

text \<open>What a run of \<open>installCrontab\<close> sends: its handlers send nothing, the read that
  ends it sends one command, and a run whose \<^verbatim>\<open>mktemp\<close> gave a path goes on with the write
  of its content to that path.\<close>

lemma issued_installCatch: "issued (installCatch e st) = issued st"
  by (simp add: installCatch_def showStatus_def log_def setError_def)

lemma issued_loadCrontab:
  "issued (loadCrontab h st) = issued st @ [(loadArgs st, isDifferentUser st)]"
proof -
  have a: "issued (loadResolved r s) = issued s" for r s
    by (simp add: loadResolved_def Let_def log_def showStatus_def)
  have b: "issued (loadCatch e s) = issued s" for e s
    by (simp add: loadCatch_def Let_def log_def showStatus_def setError_def)
  have c: "issued (showStatus m st) = issued st" for m
    by (simp add: showStatus_def)
  show ?thesis
    by (cases "h (issued st @ [(loadArgs st, isDifferentUser st)])")
       (simp_all add: loadCrontab_def spawnCommand_def sendCommand_def Let_def a b c)
qed

lemma issued_installed: "issued (installed st) = issued st"
  by (simp add: installed_def showStatus_def log_def)

lemma installCrontab_sends_write:
  assumes "h (issued st @ [(mktempArgs, isDifferentUser st)]) = Resolved mk"
    and "truthy (mktempPath mk)"
  shows "prefix (issued st @ [(mktempArgs, isDifferentUser st),
                              (writeCmd (the (mktempPath mk)) c, isDifferentUser st)])
           (issued (installCrontab h c st))"
proof -
  have s: "issued (showStatus m st) = issued st" for m
    by (simp add: showStatus_def)
  let ?d = "isDifferentUser st"
  let ?t = "the (mktempPath mk)"
  let ?i2 = "issued st @ [(mktempArgs, ?d), (writeCmd ?t c, ?d)]"
  show ?thesis
  proof (cases "h ?i2")
    case (Rejected e)
    with assms show ?thesis
      by (simp add: installCrontab_def spawnCommand_def sendCommand_def Let_def s issued_installCatch)
  next
    case w: (Resolved wv)
    let ?i3 = "?i2 @ [(installArgs ?t st, ?d)]"
    show ?thesis
    proof (cases "h ?i3")
      case (Rejected e)
      with assms w show ?thesis
        by (simp add: installCrontab_def spawnCommand_def sendCommand_def Let_def s issued_installCatch)
    next
      case i: (Resolved iv)
      let ?i4 = "?i3 @ [(rmArgs ?t, ?d)]"
      show ?thesis
      proof (cases "h ?i4")
        case (Rejected e)
        with assms w i show ?thesis
          by (simp add: installCrontab_def spawnCommand_def sendCommand_def Let_def s issued_installCatch)
      next
        case (Resolved rv)
        with assms w i show ?thesis
          by (simp add: installCrontab_def spawnCommand_def sendCommand_def Let_def s
              issued_loadCrontab issued_installed)
      qed
    qed
  qed
qed

text \<open>
  \<^bold>\<open>C3\<close>, as amended. For every raw content and every pair of a schedule that
  \<open>validateCron\<close> accepts and a command, the content that \<open>addEntry\<close> hands to
  \<open>installCrontab\<close> has these lines: the lines of the raw content with its trailing white
  space removed (none at all when the raw content is blank), then the lines of the entry text
  (the trimmed schedule, a space, the trimmed command), then the empty line that the final
  line feed leaves. When the entry text has no line feed it is one line, parsed as an Entry,
  or as a Comment when the schedule begins with \<^verbatim>\<open>#\<close>, and followed by one Blank line.
  \<open>addEntry\<close> calls \<open>installCrontab\<close> with that content, and once \<^verbatim>\<open>mktemp\<close> has given
  a path the run sends the write command made of that path and that content. When the
  schedule is not valid, no command is sent to the host, the document is left as it was and
  the error for an invalid expression is shown.
\<close>

theorem addEntry_appends_entry:
  "(validateCron expr \<longrightarrow>
      map lineText (parseCrontab (addEntryContent raw expr cmd)) =
        (if trim raw = [] then [] else map lineText (parseCrontab (trimEnd raw)))
        @ splitLines (entryLine expr cmd) @ [[]])
   \<and> (validateCron expr \<and> LF \<notin> set (entryLine expr cmd) \<longrightarrow>
      parseCrontab (addEntryContent raw expr cmd) =
        (if trim raw = [] then
           [\<lparr>type = (if hd (trim expr) = CHR ''#'' then Comment else Entry),
             lineText = entryLine expr cmd, lineIdx = 0\<rparr>,
            \<lparr>type = Blank, lineText = [], lineIdx = 1\<rparr>]
         else
           parseCrontab (trimEnd raw) @
           [\<lparr>type = (if hd (trim expr) = CHR ''#'' then Comment else Entry),
             lineText = entryLine expr cmd,
             lineIdx = length (parseCrontab (trimEnd raw))\<rparr>,
            \<lparr>type = Blank, lineText = [],
             lineIdx = Suc (length (parseCrontab (trimEnd raw)))\<rparr>]))
   \<and> (validateCron expr \<longrightarrow>
        addEntry h expr cmd st =
          installCrontab h (addEntryContent (rawCrontab st) expr cmd) (clearError st))
   \<and> (validateCron expr \<and> h (issued st @ [(mktempArgs, isDifferentUser st)]) = Resolved mk
        \<and> truthy (mktempPath mk) \<longrightarrow>
        prefix (issued st @
                [(mktempArgs, isDifferentUser st),
                 (writeCmd (the (mktempPath mk)) (addEntryContent (rawCrontab st) expr cmd),
                  isDifferentUser st)])
          (issued (addEntry h expr cmd st)))
   \<and> (\<not> validateCron expr \<longrightarrow>
        issued (addEntry h expr cmd st) = issued st
      \<and> rawCrontab (addEntry h expr cmd st) = rawCrontab st
      \<and> parsedLines (addEntry h expr cmd st) = parsedLines st
      \<and> errorContainer (addEntry h expr cmd st) = Some ErrInvalidCron)"
proof -
  have c: "rawCrontab (clearError st) = rawCrontab st" "issued (clearError st) = issued st"
    by (simp_all add: clearError_def)
  have d: "isDifferentUser (clearError st) = isDifferentUser st"
    by (rule user_cong; simp add: clearError_def)
  have w: "prefix (issued st @
                [(mktempArgs, isDifferentUser st),
                 (writeCmd (the (mktempPath mk)) (addEntryContent (rawCrontab st) expr cmd),
                  isDifferentUser st)])
          (issued (addEntry h expr cmd st))"
    if "validateCron expr" "h (issued st @ [(mktempArgs, isDifferentUser st)]) = Resolved mk"
      "truthy (mktempPath mk)"
    using that installCrontab_sends_write[of h "clearError st" mk
        "addEntryContent (rawCrontab st) expr cmd"]
    by (simp add: addEntry_def Let_def c d)
  have t: "map lineText (parseCrontab (addEntryContent raw expr cmd)) =
        (if trim raw = [] then [] else map lineText (parseCrontab (trimEnd raw)))
        @ splitLines (entryLine expr cmd) @ [[]]" if "validateCron expr"
    using splitLines_addEntryContent[OF that, of raw cmd] by (simp add: map_lineText_parse)
  show ?thesis
    using addEntryContent_parse_line[of expr cmd raw] w t c
    by (simp add: addEntry_def Let_def setError_def)
qed

theorem addEntry_appends_entry_witness:
  "validateCron '' */10 * * * * ''
   \<and> LF \<notin> set (entryLine '' */10 * * * * '' '' /bin/b '')
   \<and> \<not> validateCron ''* * * *''
   \<and> map lineText (parseCrontab (addEntryContent ''MAILTO=root\<newline>0 2 * * * /bin/a  \<newline>\<newline>''
                      '' */10 * * * * '' '' /bin/b '')) =
       [''MAILTO=root'', ''0 2 * * * /bin/a'', ''*/10 * * * * /bin/b'', []]
   \<and> parseCrontab (addEntryContent ''MAILTO=root\<newline>0 2 * * * /bin/a  \<newline>\<newline>''
                      '' */10 * * * * '' '' /bin/b '') =
       [\<lparr>type = Entry, lineText = ''MAILTO=root'', lineIdx = 0\<rparr>,
        \<lparr>type = Entry, lineText = ''0 2 * * * /bin/a'', lineIdx = 1\<rparr>,
        \<lparr>type = Entry, lineText = ''*/10 * * * * /bin/b'', lineIdx = 2\<rparr>,
        \<lparr>type = Blank, lineText = [], lineIdx = 3\<rparr>]
   \<and> prefix
        [(mktempArgs, False),
         (writeCmd ''/tmp/cockpit-cron-Ab12Cd''
            ''0 2 * * * /usr/local/bin/backup.sh\<newline>*/10 * * * * /bin/b\<newline>'', False)]
        (issued (addEntry (hostAllOk []) '' */10 * * * * '' '' /bin/b '' sessionAlice))
   \<and> issued (addEntry (scripted []) ''* * * *'' ''/bin/b'' sessionAlice) = []
   \<and> errorContainer (addEntry (scripted []) ''* * * *'' ''/bin/b'' sessionAlice) = Some ErrInvalidCron"
proof -
  have v: "validateCron '' */10 * * * * ''" by code_simp
  have n: "\<not> validateCron ''* * * *''" by code_simp
  have l: "entryLine '' */10 * * * * '' '' /bin/b '' = ''*/10 * * * * /bin/b''" by code_simp
  have s: "splitLines ''*/10 * * * * /bin/b'' = [''*/10 * * * * /bin/b'']" by code_simp
  have f: "LF \<notin> set ''*/10 * * * * /bin/b''" by simp
  have t: "trim '' */10 * * * * '' = ''*/10 * * * *''" by code_simp
  have r: "trim ''MAILTO=root\<newline>0 2 * * * /bin/a  \<newline>\<newline>'' \<noteq> []" by code_simp
  have p: "parseCrontab (trimEnd ''MAILTO=root\<newline>0 2 * * * /bin/a  \<newline>\<newline>'') =
       [\<lparr>type = Entry, lineText = ''MAILTO=root'', lineIdx = 0\<rparr>,
        \<lparr>type = Entry, lineText = ''0 2 * * * /bin/a'', lineIdx = 1\<rparr>]"
    by code_simp
  have i: "issued sessionAlice = []" by (simp add: sessionAlice_def)
  have d: "isDifferentUser sessionAlice = False" by code_simp
  have m: "hostAllOk [] [(mktempArgs, False)] = Resolved (VString ''/tmp/cockpit-cron-Ab12Cd\<newline>'')"
    by code_simp
  have k: "mktempPath (VString ''/tmp/cockpit-cron-Ab12Cd\<newline>'') = Some ''/tmp/cockpit-cron-Ab12Cd''"
    by code_simp
  have c: "addEntryContent (rawCrontab sessionAlice) '' */10 * * * * '' '' /bin/b '' =
           ''0 2 * * * /usr/local/bin/backup.sh\<newline>*/10 * * * * /bin/b\<newline>''"
    by code_simp
  note valid = addEntry_appends_entry[of "'' */10 * * * * ''"
        "''MAILTO=root\<newline>0 2 * * * /bin/a  \<newline>\<newline>''" "'' /bin/b ''"
        "hostAllOk []" sessionAlice "VString ''/tmp/cockpit-cron-Ab12Cd\<newline>''"]
  note invalid = addEntry_appends_entry[of "''* * * *''" _ "''/bin/b''" "scripted []" sessionAlice]
  have c1: "map lineText (parseCrontab (addEntryContent
              ''MAILTO=root\<newline>0 2 * * * /bin/a  \<newline>\<newline>'' '' */10 * * * * '' '' /bin/b '')) =
            [''MAILTO=root'', ''0 2 * * * /bin/a'', ''*/10 * * * * /bin/b'', []]"
    using valid[THEN conjunct1] v r unfolding l s p by simp
  have c2: "parseCrontab (addEntryContent
              ''MAILTO=root\<newline>0 2 * * * /bin/a  \<newline>\<newline>'' '' */10 * * * * '' '' /bin/b '') =
       [\<lparr>type = Entry, lineText = ''MAILTO=root'', lineIdx = 0\<rparr>,
        \<lparr>type = Entry, lineText = ''0 2 * * * /bin/a'', lineIdx = 1\<rparr>,
        \<lparr>type = Entry, lineText = ''*/10 * * * * /bin/b'', lineIdx = 2\<rparr>,
        \<lparr>type = Blank, lineText = [], lineIdx = 3\<rparr>]"
    using valid[THEN conjunct2, THEN conjunct1] v r f unfolding l t p by simp
  have c4: "prefix
        [(mktempArgs, False),
         (writeCmd ''/tmp/cockpit-cron-Ab12Cd''
            ''0 2 * * * /usr/local/bin/backup.sh\<newline>*/10 * * * * /bin/b\<newline>'', False)]
        (issued (addEntry (hostAllOk []) '' */10 * * * * '' '' /bin/b '' sessionAlice))"
    using valid[THEN conjunct2, THEN conjunct2, THEN conjunct2, THEN conjunct1] v
    unfolding i d c by (simp add: m k)
  have c5: "issued (addEntry (scripted []) ''* * * *'' ''/bin/b'' sessionAlice) = []
      \<and> errorContainer (addEntry (scripted []) ''* * * *'' ''/bin/b'' sessionAlice) = Some ErrInvalidCron"
    using invalid[THEN conjunct2, THEN conjunct2, THEN conjunct2, THEN conjunct2] n
    unfolding i by simp
  from v n c1 c2 c4 c5 show ?thesis unfolding l using f by (intro conjI) simp_all
qed

text \<open>
  The claim C3 as stated fails in three ways. When the document ends in white space, the four
  lines of \<^verbatim>\<open>"# jobs  \n\n\n"\<close> are not the first four lines of the new document, which
  has three lines, the first without its trailing spaces and the last one blank. When the
  valid schedule begins with \<^verbatim>\<open>#\<close>, the appended line is a Comment. When the valid
  schedule holds a line feed, two lines are appended, neither with the entry text.
\<close>

theorem addEntry_prefix_counterexample:
  "validateCron ''0 2 * * *''
   \<and> parseCrontab ''# jobs  \<newline>\<newline>\<newline>'' =
       [\<lparr>type = Comment, lineText = ''# jobs  '', lineIdx = 0\<rparr>,
        \<lparr>type = Blank, lineText = [], lineIdx = 1\<rparr>,
        \<lparr>type = Blank, lineText = [], lineIdx = 2\<rparr>,
        \<lparr>type = Blank, lineText = [], lineIdx = 3\<rparr>]
   \<and> parseCrontab (addEntryContent ''# jobs  \<newline>\<newline>\<newline>'' ''0 2 * * *'' ''/bin/a'') =
       [\<lparr>type = Comment, lineText = ''# jobs'', lineIdx = 0\<rparr>,
        \<lparr>type = Entry, lineText = ''0 2 * * * /bin/a'', lineIdx = 1\<rparr>,
        \<lparr>type = Blank, lineText = [], lineIdx = 2\<rparr>]
   \<and> take (length (parseCrontab ''# jobs  \<newline>\<newline>\<newline>''))
         (parseCrontab (addEntryContent ''# jobs  \<newline>\<newline>\<newline>'' ''0 2 * * *'' ''/bin/a''))
       \<noteq> parseCrontab ''# jobs  \<newline>\<newline>\<newline>''
   \<and> type (last (parseCrontab (addEntryContent ''# jobs  \<newline>\<newline>\<newline>'' ''0 2 * * *'' ''/bin/a'')))
       \<noteq> Entry
   \<and> validateCron ''#a b c d e''
   \<and> parseCrontab (addEntryContent [] ''#a b c d e'' ''/bin/a'') =
       [\<lparr>type = Comment, lineText = ''#a b c d e /bin/a'', lineIdx = 0\<rparr>,
        \<lparr>type = Blank, lineText = [], lineIdx = 1\<rparr>]
   \<and> validateCron ''0 2\<newline>* * *''
   \<and> parseCrontab (addEntryContent [] ''0 2\<newline>* * *'' ''/bin/a'') =
       [\<lparr>type = Entry, lineText = ''0 2'', lineIdx = 0\<rparr>,
        \<lparr>type = Entry, lineText = ''* * * /bin/a'', lineIdx = 1\<rparr>,
        \<lparr>type = Blank, lineText = [], lineIdx = 2\<rparr>]"
proof -
  have v: "validateCron ''0 2 * * *''" by code_simp
  have d: "parseCrontab ''# jobs  \<newline>\<newline>\<newline>'' =
       [\<lparr>type = Comment, lineText = ''# jobs  '', lineIdx = 0\<rparr>,
        \<lparr>type = Blank, lineText = [], lineIdx = 1\<rparr>,
        \<lparr>type = Blank, lineText = [], lineIdx = 2\<rparr>,
        \<lparr>type = Blank, lineText = [], lineIdx = 3\<rparr>]"
    by code_simp
  have e: "parseCrontab (addEntryContent ''# jobs  \<newline>\<newline>\<newline>'' ''0 2 * * *'' ''/bin/a'') =
       [\<lparr>type = Comment, lineText = ''# jobs'', lineIdx = 0\<rparr>,
        \<lparr>type = Entry, lineText = ''0 2 * * * /bin/a'', lineIdx = 1\<rparr>,
        \<lparr>type = Blank, lineText = [], lineIdx = 2\<rparr>]"
    by code_simp
  have h: "validateCron ''#a b c d e''" by code_simp
  have hp: "parseCrontab (addEntryContent [] ''#a b c d e'' ''/bin/a'') =
       [\<lparr>type = Comment, lineText = ''#a b c d e /bin/a'', lineIdx = 0\<rparr>,
        \<lparr>type = Blank, lineText = [], lineIdx = 1\<rparr>]"
    by code_simp
  have n: "validateCron ''0 2\<newline>* * *''" by code_simp
  have np: "parseCrontab (addEntryContent [] ''0 2\<newline>* * *'' ''/bin/a'') =
       [\<lparr>type = Entry, lineText = ''0 2'', lineIdx = 0\<rparr>,
        \<lparr>type = Entry, lineText = ''* * * /bin/a'', lineIdx = 1\<rparr>,
        \<lparr>type = Blank, lineText = [], lineIdx = 2\<rparr>]"
    by code_simp
  show ?thesis unfolding d e hp np using v h n by simp
qed

section \<open>Runs in flight\<close>

lemma user_sendCommand [simp]:
  "getUserForCrontabFlag (sendCommand a b st) = getUserForCrontabFlag st"
  "isDifferentUser (sendCommand a b st) = isDifferentUser st"
  "userDisplayName (sendCommand a b st) = userDisplayName st"
  "loadArgs (sendCommand a b st) = loadArgs st"
  "installArgs t (sendCommand a b st) = installArgs t st"
  by (rule user_cong; simp add: sendCommand_def)+

lemma drive_load: "drive h (Some AwaitLoad, loadBegin st) = loadCrontab h st"
  by (cases "h (issued (loadBegin st))")
     (simp_all add: loadCrontab_def loadBegin_def spawnCommand_def Let_def)

lemma drive_load_unfolded:
  "drive h (resume AwaitLoad (h (issued (loadBegin st))) (loadBegin st)) = loadCrontab h st"
  using drive_load[of h st] by simp

lemma drive_installBegin: "drive h (case installBegin c st of (p, st') \<Rightarrow> (Some p, st')) = installCrontab h c st"
proof -
  let ?s1 = "sendCommand mktempArgs (isDifferentUser st) (showStatus (StatusInstalling (userDisplayName st)) st)"
  show ?thesis
  proof (cases "h (issued ?s1)")
    case (Rejected e)
    then show ?thesis
      by (simp add: installBegin_def installCrontab_def spawnCommand_def Let_def)
  next
    case mk: (Resolved mk)
    show ?thesis
    proof (cases "truthy (mktempPath mk)")
      case False
      with mk show ?thesis
        by (simp add: installBegin_def installCrontab_def spawnCommand_def Let_def)
    next
      case True
      let ?t = "the (mktempPath mk)"
      let ?s2 = "sendCommand (writeCmd ?t c) (isDifferentUser st) ?s1"
      show ?thesis
      proof (cases "h (issued ?s2)")
        case (Rejected e)
        with mk True show ?thesis
          by (simp add: installBegin_def installCrontab_def spawnCommand_def Let_def)
      next
        case w: (Resolved wv)
        let ?s3 = "sendCommand (installArgs ?t st) (isDifferentUser st) ?s2"
        show ?thesis
        proof (cases "h (issued ?s3)")
          case (Rejected e)
          with mk True w show ?thesis
            by (simp add: installBegin_def installCrontab_def spawnCommand_def Let_def)
        next
          case i: (Resolved iv)
          let ?s4 = "sendCommand (rmArgs ?t) (isDifferentUser st) ?s3"
          show ?thesis
          proof (cases "h (issued ?s4)")
            case (Rejected e)
            with mk True w i show ?thesis
              by (simp add: installBegin_def installCrontab_def spawnCommand_def Let_def)
          next
            case (Resolved rv)
            with mk True w i show ?thesis
              by (simp add: installBegin_def installCrontab_def spawnCommand_def Let_def drive_load_unfolded)
          qed
        qed
      qed
    qed
  qed
qed

lemma start_runs: 
  "fst (start c (runs, st)) = runs @ [AwaitMktemp c]"
  "issued (snd (start c (runs, st))) = issued st @ [(mktempArgs, isDifferentUser st)]"
  "errorContainer (snd (start c (runs, st))) = errorContainer st"
  "rawCrontab (snd (start c (runs, st))) = rawCrontab st"
  "parsedLines (snd (start c (runs, st))) = parsedLines st"
  by (simp_all add: start_def installBegin_def Let_def sendCommand_def)
     (simp_all add: showStatus_def)

text \<open>
  \<^bold>\<open>C9\<close>, as amended. No mutation request is refused as busy: whatever runs are in
  flight, the editor's save, \<open>deleteEntryAt\<close>, and \<open>addEntry\<close> with a valid schedule each
  start a new run at once. The run joins the runs in flight, waiting for its own
  \<^verbatim>\<open>mktemp\<close>, which has been sent to the host, and no error is shown.
\<close>

theorem mutation_request_never_busy:
  "(fst (step (EditorSave content) (runs, st)) =
      runs @ [AwaitMktemp (if content \<noteq> [] \<and> last content = LF then content else content @ [LF])]
    \<and> issued (snd (step (EditorSave content) (runs, st))) =
      issued st @ [(mktempArgs, isDifferentUser st)]
    \<and> errorContainer (snd (step (EditorSave content) (runs, st))) = errorContainer st)
   \<and> (fst (step (DeleteEntryAt i) (runs, st)) =
      runs @ [AwaitMktemp (serializeLines (deleteNewLines (parsedLines st) i))]
    \<and> issued (snd (step (DeleteEntryAt i) (runs, st))) =
      issued st @ [(mktempArgs, isDifferentUser st)]
    \<and> errorContainer (snd (step (DeleteEntryAt i) (runs, st))) = errorContainer st)
   \<and> (validateCron expr \<longrightarrow>
      fst (step (AddEntry expr cmd) (runs, st)) =
        runs @ [AwaitMktemp (addEntryContent (rawCrontab st) expr cmd)]
    \<and> issued (snd (step (AddEntry expr cmd) (runs, st))) =
        issued st @ [(mktempArgs, isDifferentUser st)]
    \<and> errorContainer (snd (step (AddEntry expr cmd) (runs, st))) = None)"
proof -
  have cl: "isDifferentUser (clearError st) = isDifferentUser st"
    by (rule user_cong; simp add: clearError_def)
  have "rawCrontab (clearError st) = rawCrontab st" "issued (clearError st) = issued st"
    "errorContainer (clearError st) = None"
    by (simp_all add: clearError_def)
  then show ?thesis
    by (simp add: start_runs Let_def cl)
qed

theorem mutation_request_never_busy_witness:
  "validateCron ''*/5 * * * *''
   \<and> fst (step (AddEntry ''*/5 * * * *'' ''/bin/a'') ([AwaitWrite ''/tmp/t''], sessionAlice)) =
       [AwaitWrite ''/tmp/t'',
        AwaitMktemp ''0 2 * * * /usr/local/bin/backup.sh\<newline>*/5 * * * * /bin/a\<newline>'']
   \<and> issued (snd (step (AddEntry ''*/5 * * * *'' ''/bin/a'') ([AwaitWrite ''/tmp/t''], sessionAlice))) =
       [(mktempArgs, False)]
   \<and> errorContainer (snd (step (AddEntry ''*/5 * * * *'' ''/bin/a'') ([AwaitWrite ''/tmp/t''], sessionAlice))) = None"
proof -
  have v: "validateCron ''*/5 * * * *''" by code_simp
  have c: "addEntryContent (rawCrontab sessionAlice) ''*/5 * * * *'' ''/bin/a'' =
           ''0 2 * * * /usr/local/bin/backup.sh\<newline>*/5 * * * * /bin/a\<newline>''"
    by code_simp
  have d: "\<not> isDifferentUser sessionAlice" by code_simp
  have i: "issued sessionAlice = []" by (simp add: sessionAlice_def)
  show ?thesis
    using mutation_request_never_busy[of _ "[AwaitWrite ''/tmp/t'']" sessionAlice _ "''*/5 * * * *''" "''/bin/a''"]
      v c d i
    by simp
qed

text \<open>
  The claim C9 as stated fails: a second request to add an entry, made while the first run
  waits for \<^verbatim>\<open>mktemp\<close>, starts a second run with no error shown; once the host has answered
  the two \<^verbatim>\<open>mktemp\<close>, both runs wait for their writes, the commands of the two runs
  alternate, and the content of the second run, built from the document as it was before the
  first run, does not hold the entry of the first.
\<close>

theorem mutation_busy_counterexample:
  "fst pageOneRequest =
     [AwaitMktemp ''0 2 * * * /usr/local/bin/backup.sh\<newline>*/5 * * * * /bin/a\<newline>'']
   \<and> fst pageTwoRequests =
     [AwaitMktemp ''0 2 * * * /usr/local/bin/backup.sh\<newline>*/5 * * * * /bin/a\<newline>'',
      AwaitMktemp ''0 2 * * * /usr/local/bin/backup.sh\<newline>0 1 * * * /bin/b\<newline>'']
   \<and> errorContainer (snd pageTwoRequests) = None
   \<and> fst pageTwoWrites = [AwaitWrite ''/tmp/cockpit-cron-Ab12Cd'', AwaitWrite ''/tmp/cockpit-cron-Xy34Zw'']
   \<and> map fst (issued (snd pageTwoWrites)) =
     [mktempArgs, mktempArgs,
      writeCmd ''/tmp/cockpit-cron-Ab12Cd''
        ''0 2 * * * /usr/local/bin/backup.sh\<newline>*/5 * * * * /bin/a\<newline>'',
      writeCmd ''/tmp/cockpit-cron-Xy34Zw''
        ''0 2 * * * /usr/local/bin/backup.sh\<newline>0 1 * * * /bin/b\<newline>'']"
  by code_simp

section \<open>The write step and the temp file\<close>

lemma writeCmd_sublist: "sublist newContent (writeCmd tmp newContent ! 2)"
proof -
  have "writeCmd tmp newContent ! 2 =
          (''cat > '' @ tmp @ '' <<'EOF'\<newline>'') @ newContent @ ''\<newline>EOF\<newline>''"
    by (simp add: writeCmd_def)
  then show ?thesis by (simp only: sublist_appendI)
qed

text \<open>
  \<^bold>\<open>C1\<close>. The write step does not stream the content as data: the command it sends is
  \<^verbatim>\<open>/bin/sh -c\<close> with a script of which the content is a part, between the line
  \<^verbatim>\<open>cat > tmp <<'EOF'\<close> and a line \<^verbatim>\<open>EOF\<close>. So it is for every content and path, and so
  it is in the run of the editor's save on a host where every step succeeds, for a content
  that has a line \<^verbatim>\<open>EOF\<close> of its own followed by a command line: both are in the script
  that the shell is given.
\<close>

theorem write_command_embeds_content:
  "sublist newContent (writeCmd tmp newContent ! 2)
   \<and> take 2 (writeCmd tmp newContent) = [''/bin/sh'', ''-c'']
   \<and> map fst (issued (editorSave (hostAllOk [])
          ''* * * * * true\<newline>EOF\<newline>touch /tmp/owned'' sessionAlice)) =
       [mktempArgs,
        [''/bin/sh'', ''-c'',
         ''cat > /tmp/cockpit-cron-Ab12Cd <<'EOF'\<newline>* * * * * true\<newline>EOF\<newline>touch /tmp/owned\<newline>\<newline>EOF\<newline>''],
        [''crontab'', ''-u'', ''alice'', ''/tmp/cockpit-cron-Ab12Cd''],
        [''rm'', ''-f'', ''/tmp/cockpit-cron-Ab12Cd''],
        [''crontab'', ''-u'', ''alice'', ''-l'']]"
proof -
  have a: "take 2 (writeCmd tmp newContent) = [''/bin/sh'', ''-c'']"
    by (simp add: writeCmd_def)
  have b: "map fst (issued (editorSave (hostAllOk [])
          ''* * * * * true\<newline>EOF\<newline>touch /tmp/owned'' sessionAlice)) =
       [mktempArgs,
        [''/bin/sh'', ''-c'',
         ''cat > /tmp/cockpit-cron-Ab12Cd <<'EOF'\<newline>* * * * * true\<newline>EOF\<newline>touch /tmp/owned\<newline>\<newline>EOF\<newline>''],
        [''crontab'', ''-u'', ''alice'', ''/tmp/cockpit-cron-Ab12Cd''],
        [''rm'', ''-f'', ''/tmp/cockpit-cron-Ab12Cd''],
        [''crontab'', ''-u'', ''alice'', ''-l'']]"
    by code_simp
  from writeCmd_sublist a b show ?thesis by (intro conjI)
qed

text \<open>
  \<^bold>\<open>C2\<close>. The temp file is not removed on every exit path. On a host where \<^verbatim>\<open>mktemp\<close>
  succeeds and the write is refused, the run sends \<^verbatim>\<open>mktemp\<close> and the write and nothing
  else, and reports the failed install; where the write succeeds and the install is denied,
  it sends these two and the \<^verbatim>\<open>crontab\<close> command and nothing else. In neither run is
  \<^verbatim>\<open>rm -f\<close> of the temp file sent.
\<close>

theorem temp_file_left_behind:
  "map fst (issued (installCrontab hostWriteFails ''*/5 * * * * /bin/a\<newline>'' sessionAlice)) =
     [mktempArgs, writeCmd ''/tmp/cockpit-cron-Ab12Cd'' ''*/5 * * * * /bin/a\<newline>'']
   \<and> rmArgs ''/tmp/cockpit-cron-Ab12Cd''
       \<notin> set (map fst (issued (installCrontab hostWriteFails ''*/5 * * * * /bin/a\<newline>'' sessionAlice)))
   \<and> statusEl (installCrontab hostWriteFails ''*/5 * * * * /bin/a\<newline>'' sessionAlice)
       = StatusInstallFailed
   \<and> map fst (issued (installCrontab hostInstallDenied ''*/5 * * * * /bin/a\<newline>'' sessionBob)) =
     [mktempArgs, writeCmd ''/tmp/cockpit-cron-Ab12Cd'' ''*/5 * * * * /bin/a\<newline>'',
      [''crontab'', ''-u'', ''bob'', ''/tmp/cockpit-cron-Ab12Cd'']]
   \<and> rmArgs ''/tmp/cockpit-cron-Ab12Cd''
       \<notin> set (map fst (issued (installCrontab hostInstallDenied ''*/5 * * * * /bin/a\<newline>'' sessionBob)))
   \<and> statusEl (installCrontab hostInstallDenied ''*/5 * * * * /bin/a\<newline>'' sessionBob)
       = StatusInstallFailed"
  by code_simp

end
